theory Spec2Isabelle
  imports Complex_Main "HOL-Library.AList"
begin

section \<open>Listen Together: the live session hub (server/listentogether/hub.go)\<close>

text \<open>
  A shallow embedding of the sequential behaviour of \<^verbatim>\<open>hub.go\<close>. Every handler of the
  source takes the session mutex around its reads and writes; the model is the effect of one
  handler run to completion, as explicit state passing on a \<open>LiveSession\<close> record.

  Conventions.
  \<^item> Go's \<^verbatim>\<open>int\<close> is \<open>int\<close>: every increment and decrement of the source is guarded by a
    comparison with a slice length, so no value leaves the 64-bit range.
  \<^item> \<^verbatim>\<open>float64\<close>/\<^verbatim>\<open>float32\<close> values (position, duration) are only stored, copied and
    reset to zero by the server, never computed with; they are modelled as \<open>real\<close>
    (a JSON number is always finite).
  \<^item> \<^verbatim>\<open>time.Time\<close> is an instant on an integer time line; \<^verbatim>\<open>Before\<close> is \<open><\<close>.
  \<^item> \<^verbatim>\<open>map[string]*Participant\<close> is an association list handled through \<open>map_of\<close>,
    \<open>AList.update\<close> and \<open>AList.delete\<close>. Go visits a map in an unspecified order; the model
    visits the list in its own order, and the theorems below hold for every list, hence for
    every order.
  \<^item> A participant's connection and send channel are named by the participant's \<open>ID\<close>.
    Everything a handler does to the outside world is returned as a list of events: \<open>Send\<close>
    is the non-blocking enqueue \<^verbatim>\<open>select { case p.sendCh <- msg: default: }\<close> (the message
    is dropped when the channel of capacity 16 is full), \<open>ConnClose\<close> is
    \<^verbatim>\<open>p.conn.Close()\<close>, \<open>ChanClose\<close> is \<^verbatim>\<open>close(p.sendCh)\<close>.
  \<^item> \<^verbatim>\<open>uuid.New()\<close>, \<^verbatim>\<open>time.Now()\<close>, the data store behind \<^verbatim>\<open>hub.ds\<close>, the token
    signer and \<^verbatim>\<open>json.Unmarshal\<close> are outside these sources; their results are inputs of
    the model.
\<close>

subsection \<open>Data model\<close>

type_synonym time = int

text \<open>The fields of \<^verbatim>\<open>model.MediaFile\<close> that \<^verbatim>\<open>hub.go\<close> reads.\<close>

record MediaFile =
  mf_ID :: string
  mf_Title :: string
  mf_Artist :: string
  mf_Album :: string
  mf_Duration :: real

text \<open>The fields of \<^verbatim>\<open>model.ListenSession\<close> that \<^verbatim>\<open>CreateSession\<close> reads.\<close>

record ListenSession =
  ls_ID :: string
  ls_UserID :: string
  ls_Format :: string
  ls_MaxBitRate :: int
  ls_Tracks :: "MediaFile list"

record TrackInfo =
  t_ID :: string
  t_Token :: string
  t_Title :: string
  t_Artist :: string
  t_Album :: string
  t_Duration :: real
  t_MediaFileID :: string

record Participant =
  ID :: string
  Name :: string
  IsHost :: bool
  JoinedAt :: time

text \<open>\<^verbatim>\<open>ParticipantInfo{ID, Name, IsHost}\<close>.\<close>

datatype ParticipantInfo = ParticipantInfo string string bool

text \<open>
  The payloads the server marshals: \<^verbatim>\<open>{message}\<close>, \<^verbatim>\<open>{yourId}\<close>,
  \<^verbatim>\<open>StatePayload{Action, CurrentTrackIndex, Position, IsPlaying, Queue}\<close>,
  \<^verbatim>\<open>ParticipantsPayload{Participants}\<close>, \<^verbatim>\<open>RemotePayload{HolderID, HolderName}\<close> and
  \<^verbatim>\<open>{fromId, fromName}\<close>.
\<close>

datatype payload =
    NoPayload
  | ErrorPayload string
  | WelcomePayload string
  | StatePayload string int real bool "TrackInfo list"
  | ParticipantsPayload "ParticipantInfo list"
  | RemotePayload string string
  | RemoteRequestedPayload string string

text \<open>
  An incoming \<^verbatim>\<open>json.RawMessage\<close> stays opaque in the source until a handler unmarshals it
  into its own anonymous struct. The model represents the raw payload by the outcome of each of
  these \<^verbatim>\<open>json.Unmarshal\<close> calls; \<open>None\<close> is \<^verbatim>\<open>err != nil\<close>.
\<close>

record RawMessage =
  asSeek :: "real option"
  asSync :: "(real \<times> int) option"
  asParticipantID :: "string option"
  asMediaFileID :: "string option"
  asQueuePosition :: "int option"
  asReorder :: "(int \<times> int) option"

record 'p WSMessage =
  Type :: string
  Action :: string
  Payload :: 'p

datatype event =
    Send string "payload WSMessage"
  | ConnClose string
  | ChanClose string

record LiveSession =
  sessionID :: string
  hostUserID :: string
  format :: string
  maxBitRate :: int
  tracks :: "TrackInfo list"
  queue :: "int list"
  currentIndex :: int
  position :: real
  isPlaying :: bool
  remoteHolder :: string
  participants :: "(string \<times> Participant) list"
  graceTimer :: bool

text \<open>
  The hub maps session IDs to \<^verbatim>\<open>*LiveSession\<close>; a pointer is an address, \<open>nil\<close> is
  \<open>None\<close>. \<open>ds\<close> is \<^verbatim>\<open>ds.MediaFile(ctx).Get\<close>, with \<open>None\<close> for an error.
\<close>

type_synonym addr = nat

record Hub =
  sessions :: "(string \<times> addr) list"
  ds :: "string \<Rightarrow> MediaFile option"

text \<open>
  \<^verbatim>\<open>generateStreamToken\<close> signs its claims with \<^verbatim>\<open>auth.CreateExpiringPublicToken\<close> and
  the clock; the resulting function of (media file ID, format, bit rate) is the parameter
  \<open>tok\<close> of the definitions that mint tokens.
\<close>

type_synonym minter = "string \<Rightarrow> string \<Rightarrow> int \<Rightarrow> string"

subsection \<open>Hub\<close>

definition trackOf :: "minter \<Rightarrow> string \<Rightarrow> int \<Rightarrow> MediaFile \<Rightarrow> TrackInfo" where
  "trackOf tok fmt rate mf =
     \<lparr>t_ID = mf_ID mf, t_Token = tok (mf_ID mf) fmt rate, t_Title = mf_Title mf,
      t_Artist = mf_Artist mf, t_Album = mf_Album mf, t_Duration = mf_Duration mf,
      t_MediaFileID = mf_ID mf\<rparr>"

text \<open>The \<^verbatim>\<open>LiveSession\<close> that \<^verbatim>\<open>CreateSession\<close> builds for a session not yet in the hub.\<close>

definition newLiveSession :: "minter \<Rightarrow> ListenSession \<Rightarrow> LiveSession" where
  "newLiveSession tok session =
     \<lparr>sessionID = ls_ID session,
      hostUserID = ls_UserID session,
      format = ls_Format session,
      maxBitRate = ls_MaxBitRate session,
      tracks = map (trackOf tok (ls_Format session) (ls_MaxBitRate session)) (ls_Tracks session),
      queue = map int [0 ..< length (ls_Tracks session)],
      currentIndex = 0,
      position = 0,
      isPlaying = False,
      remoteHolder = '''',
      participants = [],
      graceTimer = False\<rparr>"



definition removeSession :: "Hub \<Rightarrow> string \<Rightarrow> Hub" where
  "removeSession h sid = h\<lparr>sessions := AList.delete sid (sessions h)\<rparr>"

subsection \<open>Membership\<close>

text \<open>\<open>Join ls pid name isHost now\<close>: \<open>pid\<close> is \<^verbatim>\<open>uuid.New().String()\<close>, \<open>now\<close> is \<^verbatim>\<open>time.Now()\<close>.\<close>

definition Join :: "LiveSession \<Rightarrow> string \<Rightarrow> string \<Rightarrow> bool \<Rightarrow> time \<Rightarrow> LiveSession \<times> Participant" where
  "Join ls pid name isHost now =
     (let p = \<lparr>ID = pid, Name = name, IsHost = isHost, JoinedAt = now\<rparr>;
          ls1 = ls\<lparr>graceTimer := False\<rparr>;
          ls2 = ls1\<lparr>participants := AList.update (ID p) p (participants ls1)\<rparr>;
          ls3 = (if remoteHolder ls2 = '''' \<or> isHost then ls2\<lparr>remoteHolder := ID p\<rparr> else ls2)
      in (ls3, p))"

text \<open>The loop of \<^verbatim>\<open>findLongestConnected\<close>; \<open>oldest\<close> is the loop variable.\<close>

fun oldestOf :: "Participant option \<Rightarrow> (string \<times> Participant) list \<Rightarrow> Participant option" where
  "oldestOf oldest [] = oldest"
| "oldestOf oldest ((k, p) # rest) =
     oldestOf (if oldest = None \<or> JoinedAt p < JoinedAt (the oldest) then Some p else oldest) rest"

definition findLongestConnected :: "LiveSession \<Rightarrow> string" where
  "findLongestConnected ls =
     (case oldestOf None (participants ls) of
        Some oldest \<Rightarrow> ID oldest
      | None \<Rightarrow> '''')"

subsection \<open>Outgoing messages\<close>

definition broadcast :: "LiveSession \<Rightarrow> payload WSMessage \<Rightarrow> event list" where
  "broadcast ls msg = map (\<lambda>(k, p). Send (ID p) msg) (participants ls)"

text \<open>
  \<^verbatim>\<open>queueTracks[i]\<close> is \<^verbatim>\<open>tracks[idx]\<close> when \<^verbatim>\<open>idx < len(tracks)\<close> and the zero value
  otherwise. (A negative entry would panic in Go; the queue never holds one, as the
  invariant \<open>queue_inv\<close> below says.)
\<close>

definition zeroTrackInfo :: TrackInfo where
  "zeroTrackInfo =
     \<lparr>t_ID = '''', t_Token = '''', t_Title = '''', t_Artist = '''', t_Album = '''',
      t_Duration = 0, t_MediaFileID = ''''\<rparr>"

definition queueTracks :: "LiveSession \<Rightarrow> TrackInfo list" where
  "queueTracks ls =
     map (\<lambda>idx. if idx < int (length (tracks ls)) then tracks ls ! nat idx else zeroTrackInfo)
       (queue ls)"

definition broadcastState :: "LiveSession \<Rightarrow> string \<Rightarrow> event list" where
  "broadcastState ls action =
     broadcast ls
       \<lparr>Type = ''state'', Action = '''',
        Payload = StatePayload action (currentIndex ls) (position ls) (isPlaying ls) (queueTracks ls)\<rparr>"

definition broadcastParticipants :: "LiveSession \<Rightarrow> event list" where
  "broadcastParticipants ls =
     broadcast ls
       \<lparr>Type = ''participants'', Action = '''',
        Payload = ParticipantsPayload
          (map (\<lambda>(k, p). ParticipantInfo (ID p) (Name p) (IsHost p)) (participants ls))\<rparr>"

definition broadcastRemote :: "LiveSession \<Rightarrow> event list" where
  "broadcastRemote ls =
     (let holderID = remoteHolder ls;
          holderName = (case map_of (participants ls) holderID of
                          Some holder \<Rightarrow> Name holder
                        | None \<Rightarrow> '''')
      in broadcast ls
           \<lparr>Type = ''remote'', Action = '''', Payload = RemotePayload holderID holderName\<rparr>)"

definition sendError :: "Participant \<Rightarrow> string \<Rightarrow> event list" where
  "sendError p errMsg =
     [Send (ID p) \<lparr>Type = ''error'', Action = '''', Payload = ErrorPayload errMsg\<rparr>]"

subsection \<open>Leaving\<close>

text \<open>
  \<open>Leave\<close>: the grace timer is armed when nobody remains; otherwise the participant list is
  broadcast, and the remote when it has a holder.
\<close>

definition Leave :: "LiveSession \<Rightarrow> string \<Rightarrow> LiveSession \<times> event list" where
  "Leave ls participantID =
     (case map_of (participants ls) participantID of
        None \<Rightarrow> (ls, [])
      | Some p \<Rightarrow>
          (let ls1 = ls\<lparr>participants := AList.delete participantID (participants ls)\<rparr>;
               ls2 = (if remoteHolder ls1 = participantID
                      then ls1\<lparr>remoteHolder := findLongestConnected ls1\<rparr> else ls1);
               remaining = length (participants ls2);
               newRemoteHolder = remoteHolder ls2
           in if remaining = 0
              then (ls2\<lparr>graceTimer := True\<rparr>, [ChanClose (ID p)])
              else (ls2, ChanClose (ID p) # broadcastParticipants ls2
                         @ (if newRemoteHolder \<noteq> '''' then broadcastRemote ls2 else []))))"

text \<open>The callback of the grace timer, when it fires.\<close>

definition graceExpired :: "Hub \<Rightarrow> LiveSession \<Rightarrow> Hub" where
  "graceExpired h ls =
     (if length (participants ls) = 0 then removeSession h (sessionID ls) else h)"

subsection \<open>Command handlers\<close>

definition isRemoteHolder :: "LiveSession \<Rightarrow> Participant \<Rightarrow> bool" where
  "isRemoteHolder ls p = (remoteHolder ls = ID p)"

definition handlePlay :: "LiveSession \<Rightarrow> Participant \<Rightarrow> LiveSession \<times> event list" where
  "handlePlay ls sender =
     (if \<not> isRemoteHolder ls sender
      then (ls, sendError sender ''only the remote holder can control playback'')
      else (let ls' = ls\<lparr>isPlaying := True\<rparr> in (ls', broadcastState ls' ''play'')))"

definition handlePause :: "LiveSession \<Rightarrow> Participant \<Rightarrow> LiveSession \<times> event list" where
  "handlePause ls sender =
     (if \<not> isRemoteHolder ls sender
      then (ls, sendError sender ''only the remote holder can control playback'')
      else (let ls' = ls\<lparr>isPlaying := False\<rparr> in (ls', broadcastState ls' ''pause'')))"

definition handleSeek :: "LiveSession \<Rightarrow> Participant \<Rightarrow> RawMessage \<Rightarrow> LiveSession \<times> event list" where
  "handleSeek ls sender payload =
     (if \<not> isRemoteHolder ls sender
      then (ls, sendError sender ''only the remote holder can control playback'')
      else (case asSeek payload of
              None \<Rightarrow> (ls, sendError sender ''invalid seek payload'')
            | Some Position \<Rightarrow>
                (let ls' = ls\<lparr>position := Position\<rparr> in (ls', broadcastState ls' ''seek''))))"

definition handleSkipNext :: "LiveSession \<Rightarrow> Participant \<Rightarrow> LiveSession \<times> event list" where
  "handleSkipNext ls sender =
     (if \<not> isRemoteHolder ls sender
      then (ls, sendError sender ''only the remote holder can control playback'')
      else (let ls' = (if currentIndex ls < int (length (queue ls)) - 1
                       then ls\<lparr>currentIndex := currentIndex ls + 1, position := 0\<rparr> else ls)
            in (ls', broadcastState ls' ''skip_next'')))"

definition handleSkipPrev :: "LiveSession \<Rightarrow> Participant \<Rightarrow> LiveSession \<times> event list" where
  "handleSkipPrev ls sender =
     (if \<not> isRemoteHolder ls sender
      then (ls, sendError sender ''only the remote holder can control playback'')
      else (let ls' = (if currentIndex ls > 0
                       then ls\<lparr>currentIndex := currentIndex ls - 1, position := 0\<rparr> else ls)
            in (ls', broadcastState ls' ''skip_prev'')))"

definition handleSync :: "LiveSession \<Rightarrow> Participant \<Rightarrow> RawMessage \<Rightarrow> LiveSession \<times> event list" where
  "handleSync ls sender payload =
     (if \<not> isRemoteHolder ls sender then (ls, [])
      else (case asSync payload of
              None \<Rightarrow> (ls, [])
            | Some (Position, TrackIndex) \<Rightarrow>
                (let ls1 = ls\<lparr>position := Position\<rparr>;
                     ls2 = (if TrackIndex \<ge> 0 \<and> TrackIndex < int (length (queue ls1))
                            then ls1\<lparr>currentIndex := TrackIndex\<rparr> else ls1)
                 in (ls2, []))))"

definition handlePassRemote :: "LiveSession \<Rightarrow> Participant \<Rightarrow> RawMessage \<Rightarrow> LiveSession \<times> event list" where
  "handlePassRemote ls sender payload =
     (if \<not> isRemoteHolder ls sender
      then (ls, sendError sender ''only the remote holder can pass the remote'')
      else (case asParticipantID payload of
              None \<Rightarrow> (ls, sendError sender ''invalid pass_remote payload'')
            | Some ParticipantID \<Rightarrow>
                (case map_of (participants ls) ParticipantID of
                   None \<Rightarrow> (ls, sendError sender ''participant not found'')
                 | Some _ \<Rightarrow>
                     (let ls' = ls\<lparr>remoteHolder := ParticipantID\<rparr>
                      in (ls', broadcastRemote ls')))))"

definition handleRequestRemote :: "LiveSession \<Rightarrow> Participant \<Rightarrow> LiveSession \<times> event list" where
  "handleRequestRemote ls sender =
     (case map_of (participants ls) (remoteHolder ls) of
        None \<Rightarrow> (ls, [])
      | Some holder \<Rightarrow>
          (ls, [Send (ID holder)
                  \<lparr>Type = ''remote_requested'', Action = '''',
                   Payload = RemoteRequestedPayload (ID sender) (Name sender)\<rparr>]))"

definition handleAcceptRemoteRequest ::
  "LiveSession \<Rightarrow> Participant \<Rightarrow> RawMessage \<Rightarrow> LiveSession \<times> event list" where
  "handleAcceptRemoteRequest ls sender payload =
     (if \<not> isRemoteHolder ls sender
      then (ls, sendError sender ''only the remote holder can accept requests'')
      else (case asParticipantID payload of
              None \<Rightarrow> (ls, sendError sender ''invalid accept payload'')
            | Some ParticipantID \<Rightarrow>
                (case map_of (participants ls) ParticipantID of
                   None \<Rightarrow> (ls, sendError sender ''participant not found'')
                 | Some _ \<Rightarrow>
                     (let ls' = ls\<lparr>remoteHolder := ParticipantID\<rparr>
                      in (ls', broadcastRemote ls')))))"

definition handleQueueAdd ::
  "minter \<Rightarrow> Hub \<Rightarrow> LiveSession \<Rightarrow> Participant \<Rightarrow> RawMessage \<Rightarrow> LiveSession \<times> event list" where
  "handleQueueAdd tok h ls sender payload =
     (if \<not> isRemoteHolder ls sender
      then (ls, sendError sender ''only the remote holder can modify the queue'')
      else (case asMediaFileID payload of
              None \<Rightarrow> (ls, sendError sender ''invalid queue_add payload'')
            | Some MediaFileID \<Rightarrow>
                (case ds h MediaFileID of
                   None \<Rightarrow> (ls, sendError sender ''track not found'')
                 | Some mf \<Rightarrow>
                     (let track = trackOf tok (format ls) (maxBitRate ls) mf;
                          newIdx = int (length (tracks ls));
                          ls1 = ls\<lparr>tracks := tracks ls @ [track]\<rparr>;
                          ls2 = ls1\<lparr>queue := queue ls1 @ [newIdx]\<rparr>
                      in (ls2, broadcastState ls2 ''queue_add'')))))"

text \<open>
  \<^verbatim>\<open>append(q[:p], q[p+1:]...)\<close> with \<^verbatim>\<open>0 <= p < len(q)\<close> is the queue without its
  element at \<open>p\<close>.
\<close>

definition spliceOut :: "int \<Rightarrow> int list \<Rightarrow> int list" where
  "spliceOut p q = take (nat p) q @ drop (nat (p + 1)) q"

definition handleQueueRemove ::
  "LiveSession \<Rightarrow> Participant \<Rightarrow> RawMessage \<Rightarrow> LiveSession \<times> event list" where
  "handleQueueRemove ls sender payload =
     (if \<not> isRemoteHolder ls sender
      then (ls, sendError sender ''only the remote holder can modify the queue'')
      else (case asQueuePosition payload of
              None \<Rightarrow> (ls, sendError sender ''invalid queue_remove payload'')
            | Some QueuePosition \<Rightarrow>
                if QueuePosition < 0 \<or> QueuePosition \<ge> int (length (queue ls))
                then (ls, sendError sender ''invalid queue position'')
                else if QueuePosition = currentIndex ls
                then (ls, sendError sender ''cannot remove the currently playing track'')
                else (let ls1 = ls\<lparr>queue := spliceOut QueuePosition (queue ls)\<rparr>;
                          ls2 = (if QueuePosition < currentIndex ls1
                                 then ls1\<lparr>currentIndex := currentIndex ls1 - 1\<rparr> else ls1)
                      in (ls2, broadcastState ls2 ''queue_remove''))))"

definition handleQueueReorder ::
  "LiveSession \<Rightarrow> Participant \<Rightarrow> RawMessage \<Rightarrow> LiveSession \<times> event list" where
  "handleQueueReorder ls sender payload =
     (if \<not> isRemoteHolder ls sender
      then (ls, sendError sender ''only the remote holder can modify the queue'')
      else (case asReorder payload of
              None \<Rightarrow> (ls, sendError sender ''invalid queue_reorder payload'')
            | Some (From, To) \<Rightarrow>
                if From < 0 \<or> From \<ge> int (length (queue ls))
                   \<or> To < 0 \<or> To \<ge> int (length (queue ls))
                then (ls, sendError sender ''invalid queue positions'')
                else (let item = queue ls ! nat From;
                          ls1 = ls\<lparr>queue := spliceOut From (queue ls)\<rparr>;
                          newQueue = take (nat To) (queue ls1) @ [item] @ drop (nat To) (queue ls1);
                          ls2 = ls1\<lparr>queue := newQueue\<rparr>;
                          ls3 = (if From = currentIndex ls2 then ls2\<lparr>currentIndex := To\<rparr>
                                 else if From < currentIndex ls2 \<and> To \<ge> currentIndex ls2
                                 then ls2\<lparr>currentIndex := currentIndex ls2 - 1\<rparr>
                                 else if From > currentIndex ls2 \<and> To \<le> currentIndex ls2
                                 then ls2\<lparr>currentIndex := currentIndex ls2 + 1\<rparr>
                                 else ls2)
                      in (ls3, broadcastState ls3 ''queue_reorder''))))"

definition endMsg :: "payload WSMessage" where
  "endMsg = \<lparr>Type = ''error'', Action = ''session_ended'', Payload = NoPayload\<rparr>"

definition handleEndSession :: "Hub \<Rightarrow> LiveSession \<Rightarrow> Participant \<Rightarrow> Hub \<times> event list" where
  "handleEndSession h ls sender =
     (if \<not> isRemoteHolder ls sender
      then (h, sendError sender ''only the remote holder can end the session'')
      else (removeSession h (sessionID ls),
            concat (map (\<lambda>(k, p). [Send (ID p) endMsg, ConnClose (ID p)]) (participants ls))))"

text \<open>The dispatch on \<^verbatim>\<open>msg.Action\<close>; the result is the hub, the session and the events.\<close>

definition HandleMessage ::
  "minter \<Rightarrow> Hub \<Rightarrow> LiveSession \<Rightarrow> Participant \<Rightarrow> RawMessage WSMessage
     \<Rightarrow> Hub \<times> LiveSession \<times> event list" where
  "HandleMessage tok h ls sender msg =
     (if Action msg = ''play'' then (h, handlePlay ls sender)
      else if Action msg = ''pause'' then (h, handlePause ls sender)
      else if Action msg = ''seek'' then (h, handleSeek ls sender (Payload msg))
      else if Action msg = ''skip_next'' then (h, handleSkipNext ls sender)
      else if Action msg = ''skip_prev'' then (h, handleSkipPrev ls sender)
      else if Action msg = ''sync'' then (h, handleSync ls sender (Payload msg))
      else if Action msg = ''pass_remote'' then (h, handlePassRemote ls sender (Payload msg))
      else if Action msg = ''request_remote'' then (h, handleRequestRemote ls sender)
      else if Action msg = ''accept_remote_request''
      then (h, handleAcceptRemoteRequest ls sender (Payload msg))
      else if Action msg = ''queue_add'' then (h, handleQueueAdd tok h ls sender (Payload msg))
      else if Action msg = ''queue_remove'' then (h, handleQueueRemove ls sender (Payload msg))
      else if Action msg = ''queue_reorder'' then (h, handleQueueReorder ls sender (Payload msg))
      else if Action msg = ''end_session''
      then (let (h', evs) = handleEndSession h ls sender in (h', ls, evs))
      else (h, ls, sendError sender (''unknown action: '' @ Action msg)))"

subsection \<open>Runs\<close>

text \<open>
  What can happen to a session: a client joins (\<^verbatim>\<open>handleWebSocket\<close> calls \<open>Join\<close>), a
  client's read loop ends (\<open>Leave\<close>), a participant's message is dispatched, the grace timer
  fires.
\<close>

datatype op =
    OpJoin string string bool time
  | OpLeave string
  | OpMessage Participant "RawMessage WSMessage"
  | OpGraceExpired

fun apply_op :: "minter \<Rightarrow> Hub \<times> LiveSession \<Rightarrow> op \<Rightarrow> Hub \<times> LiveSession" where
  "apply_op tok (h, ls) (OpJoin pid name isHost now) = (h, fst (Join ls pid name isHost now))"
| "apply_op tok (h, ls) (OpLeave pid) = (h, fst (Leave ls pid))"
| "apply_op tok (h, ls) (OpMessage sender msg) =
     (let (h', ls', evs) = HandleMessage tok h ls sender msg in (h', ls'))"
| "apply_op tok (h, ls) OpGraceExpired = ((if graceTimer ls then graceExpired h ls else h), ls)"

definition run :: "minter \<Rightarrow> Hub \<times> LiveSession \<Rightarrow> op list \<Rightarrow> Hub \<times> LiveSession" where
  "run tok st ops = foldl (apply_op tok) st ops"

text \<open>\<^verbatim>\<open>uuid.New().String()\<close> is a 36-character string, never empty.\<close>

fun fresh_ids :: "op list \<Rightarrow> bool" where
  "fresh_ids [] = True"
| "fresh_ids (OpJoin pid name isHost now # ops) = (pid \<noteq> '''' \<and> fresh_ids ops)"
| "fresh_ids (_ # ops) = fresh_ids ops"

text \<open>
  The track that \<^verbatim>\<open>tracks[queue[currentIndex]]\<close> resolves to; \<open>None\<close> where Go's index
  expression would panic.
\<close>

definition currentTrack :: "LiveSession \<Rightarrow> TrackInfo option" where
  "currentTrack ls =
     (if 0 \<le> currentIndex ls \<and> currentIndex ls < int (length (queue ls))
      then (let idx = queue ls ! nat (currentIndex ls)
            in if 0 \<le> idx \<and> idx < int (length (tracks ls))
               then Some (tracks ls ! nat idx) else None)
      else None)"

subsection \<open>The spec's formulas\<close>

text \<open>
  Written from the spec's words, for comparison with the code: \<open>clamp(x, lo, hi)\<close>, and the
  actions the spec reserves to the remote holder and answers with an error otherwise.
\<close>

definition clamp_spec :: "real \<Rightarrow> real \<Rightarrow> real \<Rightarrow> real" where
  "clamp_spec x lo hi = max lo (min x hi)"

definition holderOnly :: "string list" where
  "holderOnly =
     [''play'', ''pause'', ''seek'', ''skip_next'', ''skip_prev'', ''pass_remote'',
      ''accept_remote_request'', ''queue_add'', ''queue_remove'', ''queue_reorder'',
      ''end_session'']"

subsection \<open>Sample sessions\<close>

definition tok0 :: minter where
  "tok0 mediaFileID fmt rate = ''tok-'' @ mediaFileID"

definition mfA :: MediaFile where
  "mfA = \<lparr>mf_ID = ''a'', mf_Title = ''A'', mf_Artist = ''x'', mf_Album = ''y'', mf_Duration = 180\<rparr>"

definition mfB :: MediaFile where
  "mfB = \<lparr>mf_ID = ''b'', mf_Title = ''B'', mf_Artist = ''x'', mf_Album = ''y'', mf_Duration = 200\<rparr>"

definition mfC :: MediaFile where
  "mfC = \<lparr>mf_ID = ''c'', mf_Title = ''C'', mf_Artist = ''x'', mf_Album = ''y'', mf_Duration = 240\<rparr>"

definition hub0 :: Hub where
  "hub0 = \<lparr>sessions = [(''S'', 0)], ds = map_of [(''a'', mfA), (''b'', mfB), (''c'', mfC)]\<rparr>"

text \<open>A session of three tracks and one of none, as \<^verbatim>\<open>CreateSession\<close> builds them.\<close>

definition desc3 :: ListenSession where
  "desc3 =
     \<lparr>ls_ID = ''S'', ls_UserID = ''u'', ls_Format = '''', ls_MaxBitRate = 0,
      ls_Tracks = [mfA, mfB, mfC]\<rparr>"

definition desc0 :: ListenSession where
  "desc0 =
     \<lparr>ls_ID = ''S'', ls_UserID = ''u'', ls_Format = '''', ls_MaxBitRate = 0, ls_Tracks = []\<rparr>"

definition session3 :: LiveSession where
  "session3 = newLiveSession tok0 desc3"

definition session0 :: LiveSession where
  "session0 = newLiveSession tok0 desc0"

definition hostP :: Participant where
  "hostP = \<lparr>ID = ''p1'', Name = ''H'', IsHost = True, JoinedAt = 10\<rparr>"

definition guestP :: Participant where
  "guestP = \<lparr>ID = ''p2'', Name = ''G'', IsHost = False, JoinedAt = 20\<rparr>"

definition guestQ :: Participant where
  "guestQ = \<lparr>ID = ''p3'', Name = ''Q'', IsHost = False, JoinedAt = 30\<rparr>"

text \<open>The host joins, then two guests; the host holds the remote.\<close>

definition joins :: "op list" where
  "joins = [OpJoin ''p1'' ''H'' True 10, OpJoin ''p2'' ''G'' False 20, OpJoin ''p3'' ''Q'' False 30]"

definition live3 :: LiveSession where
  "live3 = snd (run tok0 (hub0, session3) joins)"

definition live0 :: LiveSession where
  "live0 = snd (run tok0 (hub0, session0) [OpJoin ''p1'' ''H'' True 10])"

text \<open>
  Raw payloads: \<open>{}\<close>, \<open>{"position": x}\<close>, \<open>{"queuePosition": p}\<close> and
  \<open>{"from": f, "to": t}\<close>. A field that the JSON object does not have keeps Go's zero value.
\<close>

definition rawEmpty :: RawMessage where
  "rawEmpty =
     \<lparr>asSeek = Some 0, asSync = Some (0, 0), asParticipantID = Some '''',
      asMediaFileID = Some '''', asQueuePosition = Some 0, asReorder = Some (0, 0)\<rparr>"

definition rawPosition :: "real \<Rightarrow> RawMessage" where
  "rawPosition x = rawEmpty\<lparr>asSeek := Some x, asSync := Some (x, 0)\<rparr>"

definition rawQueuePosition :: "int \<Rightarrow> RawMessage" where
  "rawQueuePosition p = rawEmpty\<lparr>asQueuePosition := Some p\<rparr>"

definition rawFromTo :: "int \<Rightarrow> int \<Rightarrow> RawMessage" where
  "rawFromTo f t = rawEmpty\<lparr>asReorder := Some (f, t)\<rparr>"

definition command :: "string \<Rightarrow> RawMessage \<Rightarrow> RawMessage WSMessage" where
  "command action raw = \<lparr>Type = ''command'', Action = action, Payload = raw\<rparr>"

text \<open>The sample session after the host has skipped to the third track.\<close>

definition skips :: "op list" where
  "skips = [OpMessage hostP (command ''skip_next'' rawEmpty),
            OpMessage hostP (command ''skip_next'' rawEmpty)]"

definition live3_at2 :: LiveSession where
  "live3_at2 = snd (run tok0 (hub0, live3) skips)"

text \<open>
  Queue edits by the host: add track \<open>b\<close> again, move the first entry to the end, remove the
  entry at position 1.
\<close>

definition edits :: "op list" where
  "edits = [OpMessage hostP (command ''queue_add'' (rawEmpty\<lparr>asMediaFileID := Some ''b''\<rparr>)),
            OpMessage hostP (command ''queue_reorder'' (rawFromTo 0 3)),
            OpMessage hostP (command ''queue_remove'' (rawQueuePosition 1))]"

subsection \<open>Invariants\<close>

text \<open>\<open>currentIndex\<close> is a position of the queue, and 0 when the queue is empty.\<close>

definition index_inv :: "LiveSession \<Rightarrow> bool" where
  "index_inv ls =
     (0 \<le> currentIndex ls
      \<and> (currentIndex ls < int (length (queue ls)) \<or> (queue ls = [] \<and> currentIndex ls = 0)))"

text \<open>The queue holds valid indices into \<open>tracks\<close>, each at most once.\<close>

definition queue_inv :: "LiveSession \<Rightarrow> bool" where
  "queue_inv ls =
     ((\<forall>idx \<in> set (queue ls). 0 \<le> idx \<and> idx < int (length (tracks ls))) \<and> distinct (queue ls))"

text \<open>
  Every participant is stored under its own ID, no ID is empty, and the remote holder is a
  key of the participant map, or empty when there is no participant.
\<close>

definition holder_inv :: "LiveSession \<Rightarrow> bool" where
  "holder_inv ls =
     ('''' \<notin> fst ` set (participants ls)
      \<and> (\<forall>(k, p) \<in> set (participants ls). ID p = k)
      \<and> (if participants ls = [] then remoteHolder ls = ''''
         else remoteHolder ls \<in> fst ` set (participants ls)))"

subsection \<open>Delivery\<close>

text \<open>
  What a client receives is what \<^verbatim>\<open>WritePump\<close> writes to its connection. The send
  channel buffers up to \<^verbatim>\<open>sendChannelSize\<close> messages; the non-blocking send drops the
  message when the buffer is full, and a send on a closed channel panics (\<open>None\<close>).
  \<open>perform\<close> is the effect of one event on the participants' channels and connections.
\<close>

record Transport =
  sendCh :: "payload WSMessage list"
  chanClosed :: bool
  connClosed :: bool
  written :: "payload WSMessage list"

definition sendChannelSize :: nat where
  "sendChannelSize = 16"

definition trySend :: "Transport \<Rightarrow> payload WSMessage \<Rightarrow> Transport" where
  "trySend t msg =
     (if length (sendCh t) < sendChannelSize then t\<lparr>sendCh := sendCh t @ [msg]\<rparr> else t)"

fun perform :: "(string \<Rightarrow> Transport) \<Rightarrow> event \<Rightarrow> (string \<Rightarrow> Transport) option" where
  "perform T (Send pid msg) =
     (if chanClosed (T pid) then None else Some (T(pid := trySend (T pid) msg)))"
| "perform T (ConnClose pid) = Some (T(pid := (T pid)\<lparr>connClosed := True\<rparr>))"
| "perform T (ChanClose pid) =
     (if chanClosed (T pid) then None else Some (T(pid := (T pid)\<lparr>chanClosed := True\<rparr>)))"

fun performAll :: "(string \<Rightarrow> Transport) \<Rightarrow> event list \<Rightarrow> (string \<Rightarrow> Transport) option" where
  "performAll T [] = Some T"
| "performAll T (e # es) = (case perform T e of None \<Rightarrow> None | Some T' \<Rightarrow> performAll T' es)"

text \<open>
  The loop of \<^verbatim>\<open>WritePump\<close> over the messages waiting in the channel, up to the point
  where it blocks on the empty channel or returns. \<^verbatim>\<open>WriteMessage\<close> on a connection on
  which \<^verbatim>\<open>Close\<close> was called returns an error (the websocket library, outside these
  sources), and the pump returns; it also returns when the channel is closed and empty. Its
  deferred \<^verbatim>\<open>p.conn.Close()\<close> closes the connection. \<open>written\<close> holds the text frames
  written; the ping ticker and the close frame are left out.
\<close>

fun drain :: "payload WSMessage list \<Rightarrow> Transport \<Rightarrow> Transport" where
  "drain [] t = (if chanClosed t then t\<lparr>sendCh := [], connClosed := True\<rparr> else t\<lparr>sendCh := []\<rparr>)"
| "drain (message # rest) t =
     (if connClosed t then t\<lparr>sendCh := rest\<rparr>
      else drain rest (t\<lparr>written := written t @ [message]\<rparr>))"

definition WritePump :: "Transport \<Rightarrow> Transport" where
  "WritePump t = drain (sendCh t) t"


section \<open>Verification\<close>

subsection \<open>Lists: removing and re-inserting an element\<close>

lemma spliceOut_nat: "0 \<le> p \<Longrightarrow> spliceOut p q = take (nat p) q @ drop (Suc (nat p)) q"
  by (simp add: spliceOut_def nat_add_distrib)

lemma length_spliceOut:
  "0 \<le> p \<Longrightarrow> p < int (length q) \<Longrightarrow> length (spliceOut p q) = length q - 1"
  by (simp add: spliceOut_nat)

lemma nth_spliceOut:
  assumes "0 \<le> p" and "p < int (length q)" and "Suc j < length q"
  shows "spliceOut p q ! j = (if j < nat p then q ! j else q ! Suc j)"
proof -
  have "nat p < length q" using assms by linarith
  then show ?thesis
    using assms by (simp add: spliceOut_nat nth_append min_def)
qed

lemma nth_reinsert:
  assumes "t \<le> length r" and "k \<le> length r"
  shows "(take t r @ x # drop t r) ! k = (if k < t then r ! k else if k = t then x else r ! (k - 1))"
  using assms by (auto simp: nth_append min_def nth_Cons')

lemma length_reinsert: "length (take t r @ x # drop t r) = Suc (length r)"
  by simp

lemma reinsert_same:
  assumes "0 \<le> i" and "i < int (length q)"
  shows "take (nat i) (spliceOut i q) @ q ! nat i # drop (nat i) (spliceOut i q) = q"
proof -
  have i: "nat i < length q" using assms by linarith
  have "take (nat i) (spliceOut i q) = take (nat i) q"
    using assms i by (simp add: spliceOut_nat)
  moreover have "drop (nat i) (spliceOut i q) = drop (Suc (nat i)) q"
    using assms i by (simp add: spliceOut_nat)
  ultimately show ?thesis
    using i by (simp add: id_take_nth_drop [symmetric])
qed

text \<open>Where the element at \<open>c\<close> ends up when the element at \<open>f\<close> is moved to \<open>t\<close>.\<close>

lemma move_nth_abs:
  assumes f: "f < length q" and t: "t < length q" and c: "c < length q"
    and len: "length r = length q - 1"
    and r: "\<And>j. Suc j < length q \<Longrightarrow> r ! j = (if j < f then q ! j else q ! Suc j)"
  shows "(take t r @ q ! f # drop t r)
           ! (if f = c then t else if f < c \<and> c \<le> t then c - 1
              else if c < f \<and> t \<le> c then Suc c else c) = q ! c"
proof -
  have ins: "\<And>k. k < length q \<Longrightarrow>
      (take t r @ q ! f # drop t r) ! k
        = (if k < t then r ! k else if k = t then q ! f else r ! (k - 1))"
    using t len by (intro nth_reinsert) linarith+
  consider (same) "f = c" | (down) "f < c" "c \<le> t" | (before) "f < c" "t < c"
    | (up) "c < f" "t \<le> c" | (after) "c < f" "c < t"
    by linarith
  then show ?thesis
  proof cases
    case same
    then show ?thesis using ins [OF t] by simp
  next
    case down
    have k: "c - 1 < length q" "c - 1 < t" "Suc (c - 1) < length q" "\<not> c - 1 < f" "Suc (c - 1) = c"
      using down c by linarith+
    have "(take t r @ q ! f # drop t r) ! (c - 1) = r ! (c - 1)"
      using ins [OF k(1)] k(2) by simp
    also have "\<dots> = q ! Suc (c - 1)" using r [OF k(3)] k(4) by simp
    finally show ?thesis using down k(5) by simp
  next
    case before
    have k: "\<not> c < t" "c \<noteq> t" "Suc (c - 1) < length q" "\<not> c - 1 < f" "Suc (c - 1) = c"
      using before c by linarith+
    have "(take t r @ q ! f # drop t r) ! c = r ! (c - 1)"
      using ins [OF c] k(1,2) by simp
    also have "\<dots> = q ! Suc (c - 1)" using r [OF k(3)] k(4) by simp
    finally show ?thesis using before k(5) by simp
  next
    case up
    have k: "Suc c < length q" "\<not> Suc c < t" "Suc c \<noteq> t" "c < f"
      using up f by linarith+
    have "(take t r @ q ! f # drop t r) ! Suc c = r ! c"
      using ins [OF k(1)] k(2,3) by simp
    also have "\<dots> = q ! c" using r [OF k(1)] k(4) by simp
    finally show ?thesis using up by simp
  next
    case after
    have k: "Suc c < length q" "c < t" "c < f"
      using after f by linarith+
    have "(take t r @ q ! f # drop t r) ! c = r ! c"
      using ins [OF c] k(2) by simp
    also have "\<dots> = q ! c" using r [OF k(1)] k(3) by simp
    finally show ?thesis using after by simp
  qed
qed

lemma move_nth:
  assumes f: "0 \<le> f" "f < int (length q)" and t: "0 \<le> t" "t < int (length q)"
    and c: "0 \<le> c" "c < int (length q)"
  shows "(take (nat t) (spliceOut f q) @ q ! nat f # drop (nat t) (spliceOut f q))
           ! nat (if f = c then t else if f < c \<and> t \<ge> c then c - 1
                  else if f > c \<and> t \<le> c then c + 1 else c) = q ! nat c"
proof -
  have n: "nat f < length q" "nat t < length q" "nat c < length q"
    using assms by linarith+
  have len: "length (spliceOut f q) = length q - 1" using f by (rule length_spliceOut)
  have idx: "nat (if f = c then t else if f < c \<and> t \<ge> c then c - 1
                  else if f > c \<and> t \<le> c then c + 1 else c)
           = (if nat f = nat c then nat t else if nat f < nat c \<and> nat c \<le> nat t then nat c - 1
              else if nat c < nat f \<and> nat t \<le> nat c then Suc (nat c) else nat c)"
    using f(1) t(1) c(1) by (auto simp: nat_diff_distrib nat_add_distrib)
  show ?thesis unfolding idx
    using n len by (rule move_nth_abs) (rule nth_spliceOut [OF f])
qed

lemma length_move:
  assumes "0 \<le> f" and "f < int (length q)"
  shows "length (take t (spliceOut f q) @ x # drop t (spliceOut f q)) = length q"
proof -
  have "0 < length q" using assms by linarith
  then show ?thesis unfolding length_reinsert length_spliceOut [OF assms] by simp
qed

subsection \<open>What the handlers return\<close>

lemma handleQueueReorder_holder:
  assumes "isRemoteHolder ls sender" and "asReorder payload = Some (f, t)"
    and "0 \<le> f" and "f < int (length (queue ls))" and "0 \<le> t" and "t < int (length (queue ls))"
  shows "fst (handleQueueReorder ls sender payload)
         = ls\<lparr>queue := take (nat t) (spliceOut f (queue ls)) @ queue ls ! nat f
                         # drop (nat t) (spliceOut f (queue ls)),
               currentIndex := (if f = currentIndex ls then t
                  else if f < currentIndex ls \<and> t \<ge> currentIndex ls then currentIndex ls - 1
                  else if f > currentIndex ls \<and> t \<le> currentIndex ls then currentIndex ls + 1
                  else currentIndex ls)\<rparr>"
  using assms by (simp add: handleQueueReorder_def Let_def)

lemma handleQueueRemove_holder:
  assumes "isRemoteHolder ls sender" and "asQueuePosition payload = Some p"
    and "0 \<le> p" and "p < int (length (queue ls))" and "p \<noteq> currentIndex ls"
  shows "fst (handleQueueRemove ls sender payload)
         = ls\<lparr>queue := spliceOut p (queue ls),
               currentIndex := (if p < currentIndex ls then currentIndex ls - 1
                                else currentIndex ls)\<rparr>"
  using assms by (simp add: handleQueueRemove_def Let_def)

subsection \<open>The sample sessions, evaluated\<close>

lemma session3_eq:
  "session3 =
     \<lparr>sessionID = ''S'', hostUserID = ''u'', format = '''', maxBitRate = 0,
      tracks = [trackOf tok0 '''' 0 mfA, trackOf tok0 '''' 0 mfB, trackOf tok0 '''' 0 mfC],
      queue = [0, 1, 2], currentIndex = 0, position = 0, isPlaying = False,
      remoteHolder = '''', participants = [], graceTimer = False\<rparr>"
  by (simp add: session3_def desc3_def newLiveSession_def upt_rec)

lemma live3_eq:
  "live3 = session3\<lparr>remoteHolder := ''p1'',
                    participants := [(''p1'', hostP), (''p2'', guestP), (''p3'', guestQ)]\<rparr>"
  by (simp add: live3_def run_def joins_def session3_eq Join_def Let_def
      hostP_def guestP_def guestQ_def)

lemma live0_eq:
  "live0 =
     \<lparr>sessionID = ''S'', hostUserID = ''u'', format = '''', maxBitRate = 0,
      tracks = [], queue = [], currentIndex = 0, position = 0, isPlaying = False,
      remoteHolder = ''p1'', participants = [(''p1'', hostP)], graceTimer = False\<rparr>"
  by (simp add: live0_def run_def session0_def desc0_def newLiveSession_def Join_def Let_def
      hostP_def)

subsection \<open>Seek\<close>

text \<open>
  C1, as the spec states it: after a seek with position \<open>p\<close> from the remote holder, the
  session's position is \<open>clamp(p, 0, duration of the current track)\<close>. The code stores the
  payload's position as it is. In the sample session the host holds the remote and the current
  track lasts 180 seconds; a seek to 500 leaves the position at 500, where the clamp is 180,
  and a seek to -5 leaves it at -5, where the clamp is 0.
\<close>

theorem seek_beyond_duration_not_clamped:
  "isRemoteHolder live3 hostP
   \<and> map_option t_Duration (currentTrack live3) = Some 180
   \<and> position (fst (snd (HandleMessage tok0 hub0 live3 hostP (command ''seek'' (rawPosition 500)))))
       = 500
   \<and> clamp_spec 500 0 180 = 180
   \<and> position (fst (snd (HandleMessage tok0 hub0 live3 hostP (command ''seek'' (rawPosition 500)))))
       \<noteq> clamp_spec 500 0 180
   \<and> position (fst (snd (HandleMessage tok0 hub0 live3 hostP (command ''seek'' (rawPosition (- 5))))))
       = - 5
   \<and> clamp_spec (- 5) 0 180 = 0
   \<and> position (fst (snd (HandleMessage tok0 hub0 live3 hostP (command ''seek'' (rawPosition (- 5))))))
       \<noteq> clamp_spec (- 5) 0 180"
  by (simp add: live3_eq session3_eq isRemoteHolder_def hostP_def command_def rawPosition_def
      rawEmpty_def HandleMessage_def handleSeek_def Let_def currentTrack_def trackOf_def mfA_def
      clamp_spec_def)

text \<open>
  C1, amended: after a seek with a numeric position \<open>p\<close> from the remote holder, the session's
  position is \<open>p\<close> itself, whatever the duration of the current track; nothing else in the
  session changes, and the new state is broadcast with action \<open>seek\<close>.
\<close>

theorem seek_stores_payload_position:
  assumes "isRemoteHolder ls sender" and "Action msg = ''seek''"
    and "asSeek (Payload msg) = Some p"
  shows "HandleMessage tok h ls sender msg
         = (h, ls\<lparr>position := p\<rparr>, broadcastState (ls\<lparr>position := p\<rparr>) ''seek'')"
  using assms by (simp add: HandleMessage_def handleSeek_def Let_def)

theorem seek_stores_payload_position_witness:
  "isRemoteHolder live3 hostP
   \<and> Action (command ''seek'' (rawPosition 42)) = ''seek''
   \<and> asSeek (Payload (command ''seek'' (rawPosition 42))) = Some 42
   \<and> position (fst (snd (HandleMessage tok0 hub0 live3 hostP (command ''seek'' (rawPosition 42)))))
       = 42"
  using seek_stores_payload_position
    [of live3 hostP "command ''seek'' (rawPosition 42)" 42 tok0 hub0]
  by (simp add: live3_eq session3_eq isRemoteHolder_def hostP_def command_def rawPosition_def
      rawEmpty_def)

subsection \<open>Authority\<close>

text \<open>
  C3: a holder-only command (play, pause, seek, skip_next, skip_prev, pass_remote,
  accept_remote_request, queue_add, queue_remove, queue_reorder, end_session) from a
  participant who does not hold the remote leaves the hub and the session as they were, and
  the only event is one error message sent to that sender: nothing is broadcast. A sync from
  such a participant changes nothing and sends nothing.
\<close>

theorem non_holder_command_rejected:
  assumes "\<not> isRemoteHolder ls sender"
  shows "(Action msg \<in> set holderOnly \<longrightarrow>
           (\<exists>text. HandleMessage tok h ls sender msg
                    = (h, ls, [Send (ID sender)
                                 \<lparr>Type = ''error'', Action = '''', Payload = ErrorPayload text\<rparr>])))
       \<and> (Action msg = ''sync'' \<longrightarrow> HandleMessage tok h ls sender msg = (h, ls, []))"
proof (intro conjI impI)
  assume "Action msg \<in> set holderOnly"
  then consider "Action msg = ''play''" | "Action msg = ''pause''" | "Action msg = ''seek''"
    | "Action msg = ''skip_next''" | "Action msg = ''skip_prev''" | "Action msg = ''pass_remote''"
    | "Action msg = ''accept_remote_request''" | "Action msg = ''queue_add''"
    | "Action msg = ''queue_remove''" | "Action msg = ''queue_reorder''"
    | "Action msg = ''end_session''"
    unfolding holderOnly_def by auto
  then show "\<exists>text. HandleMessage tok h ls sender msg
                = (h, ls, [Send (ID sender)
                             \<lparr>Type = ''error'', Action = '''', Payload = ErrorPayload text\<rparr>])"
  proof cases
    case 1
    then show ?thesis using assms by (simp add: HandleMessage_def handlePlay_def sendError_def)
  next
    case 2
    then show ?thesis using assms by (simp add: HandleMessage_def handlePause_def sendError_def)
  next
    case 3
    then show ?thesis using assms by (simp add: HandleMessage_def handleSeek_def sendError_def)
  next
    case 4
    then show ?thesis using assms by (simp add: HandleMessage_def handleSkipNext_def sendError_def)
  next
    case 5
    then show ?thesis using assms by (simp add: HandleMessage_def handleSkipPrev_def sendError_def)
  next
    case 6
    then show ?thesis using assms by (simp add: HandleMessage_def handlePassRemote_def sendError_def)
  next
    case 7
    then show ?thesis
      using assms by (simp add: HandleMessage_def handleAcceptRemoteRequest_def sendError_def)
  next
    case 8
    then show ?thesis using assms by (simp add: HandleMessage_def handleQueueAdd_def sendError_def)
  next
    case 9
    then show ?thesis using assms by (simp add: HandleMessage_def handleQueueRemove_def sendError_def)
  next
    case 10
    then show ?thesis
      using assms by (simp add: HandleMessage_def handleQueueReorder_def sendError_def)
  next
    case 11
    then show ?thesis using assms by (simp add: HandleMessage_def handleEndSession_def sendError_def)
  qed
next
  assume "Action msg = ''sync''"
  then show "HandleMessage tok h ls sender msg = (h, ls, [])"
    using assms by (simp add: HandleMessage_def handleSync_def)
qed

theorem non_holder_command_rejected_witness:
  "\<not> isRemoteHolder live3 guestP
   \<and> Action (command ''pause'' rawEmpty) \<in> set holderOnly
   \<and> HandleMessage tok0 hub0 live3 guestP (command ''pause'' rawEmpty)
       = (hub0, live3,
          [Send ''p2'' \<lparr>Type = ''error'', Action = '''',
                        Payload = ErrorPayload ''only the remote holder can control playback''\<rparr>])
   \<and> Action (command ''sync'' (rawPosition 7)) = ''sync''
   \<and> HandleMessage tok0 hub0 live3 guestP (command ''sync'' (rawPosition 7)) = (hub0, live3, [])"
  using non_holder_command_rejected [of live3 guestP "command ''pause'' rawEmpty" tok0 hub0]
    non_holder_command_rejected [of live3 guestP "command ''sync'' (rawPosition 7)" tok0 hub0]
  by (simp add: live3_eq session3_eq isRemoteHolder_def guestP_def command_def holderOnly_def
      HandleMessage_def handlePause_def handleSync_def sendError_def)

lemma live3_at2_eq: "live3_at2 = live3\<lparr>currentIndex := 2\<rparr>"
  by (simp add: live3_at2_def run_def skips_def live3_eq session3_eq HandleMessage_def
      handleSkipNext_def Let_def command_def isRemoteHolder_def hostP_def)

subsection \<open>Queue removal and reordering\<close>

lemma nth_spliceOut_before:
  assumes "0 \<le> p" and "p < int (length q)" and "j < nat p"
  shows "spliceOut p q ! j = q ! j"
proof -
  have "Suc j < length q" using assms by linarith
  from nth_spliceOut [OF assms(1,2) this] assms(3) show ?thesis by simp
qed

lemma nth_spliceOut_after:
  assumes "0 \<le> p" and "p < int (length q)" and "nat p \<le> j" and "Suc j < length q"
  shows "spliceOut p q ! j = q ! Suc j"
proof -
  have "\<not> j < nat p" using assms(3) by linarith
  with nth_spliceOut [OF assms(1,2,4)] show ?thesis by simp
qed

lemma currentTrack_eqI:
  assumes "tracks ls' = tracks ls" and "queue ls' = q'" and "currentIndex ls' = c'"
    and "(0 \<le> c' \<and> c' < int (length q'))
         = (0 \<le> currentIndex ls \<and> currentIndex ls < int (length (queue ls)))"
    and "0 \<le> currentIndex ls \<Longrightarrow> currentIndex ls < int (length (queue ls))
         \<Longrightarrow> q' ! nat c' = queue ls ! nat (currentIndex ls)"
  shows "currentTrack ls' = currentTrack ls"
  using assms by (auto simp: currentTrack_def Let_def)

lemma currentTrack_remove:
  assumes p: "0 \<le> p" "p < int (length (queue ls))" and ne: "p \<noteq> currentIndex ls"
  shows "currentTrack (ls\<lparr>queue := spliceOut p (queue ls),
                           currentIndex := (if p < currentIndex ls then currentIndex ls - 1
                                            else currentIndex ls)\<rparr>)
         = currentTrack ls"
proof (rule currentTrack_eqI)
  let ?q = "queue ls" and ?c = "currentIndex ls"
  let ?c' = "if p < ?c then ?c - 1 else ?c"
  let ?ls' = "ls\<lparr>queue := spliceOut p ?q, currentIndex := ?c'\<rparr>"
  have len: "int (length (spliceOut p ?q)) = int (length ?q) - 1"
    using length_spliceOut [OF p] p by linarith
  show "tracks ?ls' = tracks ls" by simp
  show "queue ?ls' = spliceOut p ?q" by simp
  show "currentIndex ?ls' = ?c'" by simp
  show "(0 \<le> ?c' \<and> ?c' < int (length (spliceOut p ?q))) = (0 \<le> ?c \<and> ?c < int (length ?q))"
    unfolding len using p ne by auto
  show "spliceOut p ?q ! nat ?c' = ?q ! nat ?c" if c: "0 \<le> ?c" "?c < int (length ?q)"
  proof (cases "p < ?c")
    case True
    have "spliceOut p ?q ! nat (?c - 1) = ?q ! Suc (nat (?c - 1))"
      using p by (rule nth_spliceOut_after) (use True p c in linarith)+
    moreover have "Suc (nat (?c - 1)) = nat ?c" using True p by linarith
    ultimately show ?thesis using True by (simp only: if_True)
  next
    case False
    have "spliceOut p ?q ! nat ?c = ?q ! nat ?c"
      using p by (rule nth_spliceOut_before) (use False ne p c in linarith)
    then show ?thesis using False by (simp only: if_False)
  qed
qed

lemma currentTrack_reorder:
  assumes f: "0 \<le> f" "f < int (length (queue ls))" and t: "0 \<le> t" "t < int (length (queue ls))"
  shows "currentTrack
           (ls\<lparr>queue := take (nat t) (spliceOut f (queue ls)) @ queue ls ! nat f
                           # drop (nat t) (spliceOut f (queue ls)),
                currentIndex := (if f = currentIndex ls then t
                   else if f < currentIndex ls \<and> t \<ge> currentIndex ls then currentIndex ls - 1
                   else if f > currentIndex ls \<and> t \<le> currentIndex ls then currentIndex ls + 1
                   else currentIndex ls)\<rparr>)
         = currentTrack ls"
proof (rule currentTrack_eqI)
  let ?q = "queue ls" and ?c = "currentIndex ls"
  let ?q' = "take (nat t) (spliceOut f ?q) @ ?q ! nat f # drop (nat t) (spliceOut f ?q)"
  let ?c' = "if f = ?c then t else if f < ?c \<and> t \<ge> ?c then ?c - 1
             else if f > ?c \<and> t \<le> ?c then ?c + 1 else ?c"
  let ?ls' = "ls\<lparr>queue := ?q', currentIndex := ?c'\<rparr>"
  have len: "length ?q' = length ?q" using f by (rule length_move)
  show "tracks ?ls' = tracks ls" by simp
  show "queue ?ls' = ?q'" by simp
  show "currentIndex ?ls' = ?c'" by simp
  show "(0 \<le> ?c' \<and> ?c' < int (length ?q')) = (0 \<le> ?c \<and> ?c < int (length ?q))"
    unfolding len using f t by auto
  show "?q' ! nat ?c' = ?q ! nat ?c" if "0 \<le> ?c" "?c < int (length ?q)"
    using f t that by (rule move_nth)
qed

text \<open>
  C5: for a queue_remove with position \<open>p\<close> from the remote holder. If \<open>p\<close> is outside
  \<open>[0, len(queue))\<close> or equals \<open>currentIndex\<close>, the hub and the whole session (queue,
  currentIndex, position, isPlaying) stay as they were and one error goes to the sender.
  Otherwise the element at \<open>p\<close> is spliced out of the queue, tracks, position and isPlaying
  are kept, currentIndex drops by one exactly when \<open>p < currentIndex\<close>, and the track that
  \<open>tracks[queue[currentIndex]]\<close> resolves to is the same before and after.
\<close>

theorem queue_remove_by_holder:
  assumes "isRemoteHolder ls sender" and "Action msg = ''queue_remove''"
    and "asQueuePosition (Payload msg) = Some p"
  shows "(p < 0 \<or> p \<ge> int (length (queue ls)) \<or> p = currentIndex ls \<longrightarrow>
            (\<exists>text. HandleMessage tok h ls sender msg
                     = (h, ls, [Send (ID sender)
                                  \<lparr>Type = ''error'', Action = '''', Payload = ErrorPayload text\<rparr>])))
       \<and> (0 \<le> p \<and> p < int (length (queue ls)) \<and> p \<noteq> currentIndex ls \<longrightarrow>
            queue (fst (snd (HandleMessage tok h ls sender msg)))
              = take (nat p) (queue ls) @ drop (Suc (nat p)) (queue ls)
          \<and> currentIndex (fst (snd (HandleMessage tok h ls sender msg)))
              = (if p < currentIndex ls then currentIndex ls - 1 else currentIndex ls)
          \<and> currentTrack (fst (snd (HandleMessage tok h ls sender msg))) = currentTrack ls
          \<and> tracks (fst (snd (HandleMessage tok h ls sender msg))) = tracks ls
          \<and> position (fst (snd (HandleMessage tok h ls sender msg))) = position ls
          \<and> isPlaying (fst (snd (HandleMessage tok h ls sender msg))) = isPlaying ls)"
proof -
  have hm: "HandleMessage tok h ls sender msg = (h, handleQueueRemove ls sender (Payload msg))"
    using assms(2) by (simp add: HandleMessage_def)
  show ?thesis
  proof (intro conjI impI)
    assume "p < 0 \<or> p \<ge> int (length (queue ls)) \<or> p = currentIndex ls"
    then show "\<exists>text. HandleMessage tok h ls sender msg
                 = (h, ls, [Send (ID sender)
                              \<lparr>Type = ''error'', Action = '''', Payload = ErrorPayload text\<rparr>])"
      unfolding hm using assms(1,3) by (auto simp: handleQueueRemove_def sendError_def)
  next
    assume ok: "0 \<le> p \<and> p < int (length (queue ls)) \<and> p \<noteq> currentIndex ls"
    then have p: "0 \<le> p" "p < int (length (queue ls))" "p \<noteq> currentIndex ls" by simp_all
    note res = handleQueueRemove_holder [OF assms(1,3) p]
    show "queue (fst (snd (HandleMessage tok h ls sender msg)))
            = take (nat p) (queue ls) @ drop (Suc (nat p)) (queue ls)"
      unfolding hm using p(1) by (simp add: res spliceOut_nat)
    show "currentIndex (fst (snd (HandleMessage tok h ls sender msg)))
            = (if p < currentIndex ls then currentIndex ls - 1 else currentIndex ls)"
      unfolding hm by (simp add: res)
    show "currentTrack (fst (snd (HandleMessage tok h ls sender msg))) = currentTrack ls"
      unfolding hm using currentTrack_remove [OF p] by (simp add: res)
    show "tracks (fst (snd (HandleMessage tok h ls sender msg))) = tracks ls"
      unfolding hm by (simp add: res)
    show "position (fst (snd (HandleMessage tok h ls sender msg))) = position ls"
      unfolding hm by (simp add: res)
    show "isPlaying (fst (snd (HandleMessage tok h ls sender msg))) = isPlaying ls"
      unfolding hm by (simp add: res)
  qed
qed

theorem queue_remove_by_holder_witness:
  "isRemoteHolder live3_at2 hostP
   \<and> Action (command ''queue_remove'' (rawQueuePosition 0)) = ''queue_remove''
   \<and> asQueuePosition (Payload (command ''queue_remove'' (rawQueuePosition 0))) = Some 0
   \<and> (0 \<le> (0::int) \<and> 0 < int (length (queue live3_at2)) \<and> 0 \<noteq> currentIndex live3_at2)
   \<and> queue (fst (snd (HandleMessage tok0 hub0 live3_at2 hostP
                        (command ''queue_remove'' (rawQueuePosition 0))))) = [1, 2]
   \<and> currentIndex (fst (snd (HandleMessage tok0 hub0 live3_at2 hostP
                               (command ''queue_remove'' (rawQueuePosition 0))))) = 1
   \<and> currentTrack (fst (snd (HandleMessage tok0 hub0 live3_at2 hostP
                               (command ''queue_remove'' (rawQueuePosition 0)))))
       = Some (trackOf tok0 '''' 0 mfC)
   \<and> currentTrack live3_at2 = Some (trackOf tok0 '''' 0 mfC)
   \<and> asQueuePosition (Payload (command ''queue_remove'' (rawQueuePosition 2))) = Some 2
   \<and> 2 = currentIndex live3_at2
   \<and> HandleMessage tok0 hub0 live3_at2 hostP (command ''queue_remove'' (rawQueuePosition 2))
       = (hub0, live3_at2,
          [Send ''p1'' \<lparr>Type = ''error'', Action = '''',
                        Payload = ErrorPayload ''cannot remove the currently playing track''\<rparr>])"
  using queue_remove_by_holder
          [of live3_at2 hostP "command ''queue_remove'' (rawQueuePosition 0)" 0 tok0 hub0]
        queue_remove_by_holder
          [of live3_at2 hostP "command ''queue_remove'' (rawQueuePosition 2)" 2 tok0 hub0]
  by (simp add: live3_at2_eq live3_eq session3_eq isRemoteHolder_def hostP_def command_def
      rawQueuePosition_def rawEmpty_def HandleMessage_def handleQueueRemove_def spliceOut_def
      Let_def currentTrack_def sendError_def)

lemma reinsert_nth_at: "t \<le> length r \<Longrightarrow> (take t r @ x # drop t r) ! t = x"
  by (simp add: nth_append)

lemma remove_reinsert:
  "t \<le> length r \<Longrightarrow>
     take t (take t r @ x # drop t r) @ drop (Suc t) (take t r @ x # drop t r) = r"
  by simp

text \<open>
  C6: for a queue_reorder from the remote holder with in-range positions \<open>f\<close> (from) and
  \<open>t\<close> (to). The element \<open>queue[f]\<close> is at position \<open>t\<close> afterwards and the other elements
  keep their order; the new currentIndex is \<open>t\<close> if \<open>f = currentIndex\<close>,
  \<open>currentIndex - 1\<close> if \<open>f < currentIndex \<le> t\<close>, \<open>currentIndex + 1\<close> if
  \<open>t \<le> currentIndex < f\<close>, and unchanged otherwise; the track that
  \<open>tracks[queue[currentIndex]]\<close> resolves to is the same before and after.
\<close>

theorem queue_reorder_by_holder:
  assumes "isRemoteHolder ls sender" and "Action msg = ''queue_reorder''"
    and "asReorder (Payload msg) = Some (f, t)"
    and "0 \<le> f" and "f < int (length (queue ls))"
    and "0 \<le> t" and "t < int (length (queue ls))"
  shows "queue (fst (snd (HandleMessage tok h ls sender msg))) ! nat t = queue ls ! nat f
       \<and> take (nat t) (queue (fst (snd (HandleMessage tok h ls sender msg))))
           @ drop (Suc (nat t)) (queue (fst (snd (HandleMessage tok h ls sender msg))))
         = take (nat f) (queue ls) @ drop (Suc (nat f)) (queue ls)
       \<and> currentIndex (fst (snd (HandleMessage tok h ls sender msg)))
         = (if f = currentIndex ls then t
            else if f < currentIndex ls \<and> t \<ge> currentIndex ls then currentIndex ls - 1
            else if f > currentIndex ls \<and> t \<le> currentIndex ls then currentIndex ls + 1
            else currentIndex ls)
       \<and> currentTrack (fst (snd (HandleMessage tok h ls sender msg))) = currentTrack ls
       \<and> tracks (fst (snd (HandleMessage tok h ls sender msg))) = tracks ls
       \<and> position (fst (snd (HandleMessage tok h ls sender msg))) = position ls
       \<and> isPlaying (fst (snd (HandleMessage tok h ls sender msg))) = isPlaying ls"
proof -
  let ?r = "spliceOut f (queue ls)"
  have hm: "fst (snd (HandleMessage tok h ls sender msg))
            = fst (handleQueueReorder ls sender (Payload msg))"
    using assms(2) by (simp add: HandleMessage_def)
  note res = handleQueueReorder_holder [OF assms(1,3-7)]
  have tl: "nat t \<le> length ?r"
    using length_spliceOut [OF assms(4,5)] assms(6,7) by linarith
  have r: "?r = take (nat f) (queue ls) @ drop (Suc (nat f)) (queue ls)"
    using assms(4) by (rule spliceOut_nat)
  have q': "queue (fst (handleQueueReorder ls sender (Payload msg)))
            = take (nat t) ?r @ queue ls ! nat f # drop (nat t) ?r"
    by (simp add: res)
  show ?thesis
  proof (intro conjI)
    show "queue (fst (snd (HandleMessage tok h ls sender msg))) ! nat t = queue ls ! nat f"
      unfolding hm q' using tl by (rule reinsert_nth_at)
    show "take (nat t) (queue (fst (snd (HandleMessage tok h ls sender msg))))
            @ drop (Suc (nat t)) (queue (fst (snd (HandleMessage tok h ls sender msg))))
          = take (nat f) (queue ls) @ drop (Suc (nat f)) (queue ls)"
      unfolding hm q' remove_reinsert [OF tl] by (rule r)
    show "currentIndex (fst (snd (HandleMessage tok h ls sender msg)))
          = (if f = currentIndex ls then t
             else if f < currentIndex ls \<and> t \<ge> currentIndex ls then currentIndex ls - 1
             else if f > currentIndex ls \<and> t \<le> currentIndex ls then currentIndex ls + 1
             else currentIndex ls)"
      unfolding hm res by simp
    show "currentTrack (fst (snd (HandleMessage tok h ls sender msg))) = currentTrack ls"
      unfolding hm res using assms(4-7) by (rule currentTrack_reorder)
    show "tracks (fst (snd (HandleMessage tok h ls sender msg))) = tracks ls"
      unfolding hm res by simp
    show "position (fst (snd (HandleMessage tok h ls sender msg))) = position ls"
      unfolding hm res by simp
    show "isPlaying (fst (snd (HandleMessage tok h ls sender msg))) = isPlaying ls"
      unfolding hm res by simp
  qed
qed

theorem queue_reorder_by_holder_witness:
  "isRemoteHolder live3_at2 hostP
   \<and> Action (command ''queue_reorder'' (rawFromTo 0 2)) = ''queue_reorder''
   \<and> asReorder (Payload (command ''queue_reorder'' (rawFromTo 0 2))) = Some (0, 2)
   \<and> (0::int) \<le> 0 \<and> 0 < int (length (queue live3_at2))
   \<and> (0::int) \<le> 2 \<and> 2 < int (length (queue live3_at2))
   \<and> queue live3_at2 = [0, 1, 2] \<and> currentIndex live3_at2 = 2
   \<and> queue (fst (snd (HandleMessage tok0 hub0 live3_at2 hostP
                        (command ''queue_reorder'' (rawFromTo 0 2))))) = [1, 2, 0]
   \<and> currentIndex (fst (snd (HandleMessage tok0 hub0 live3_at2 hostP
                               (command ''queue_reorder'' (rawFromTo 0 2))))) = 1
   \<and> currentTrack (fst (snd (HandleMessage tok0 hub0 live3_at2 hostP
                               (command ''queue_reorder'' (rawFromTo 0 2)))))
       = currentTrack live3_at2"
  using queue_reorder_by_holder
          [of live3_at2 hostP "command ''queue_reorder'' (rawFromTo 0 2)" 0 2 tok0 hub0]
  by (simp add: live3_at2_eq live3_eq session3_eq isRemoteHolder_def hostP_def command_def
      rawFromTo_def rawEmpty_def HandleMessage_def handleQueueReorder_def spliceOut_def Let_def)

text \<open>
  C10: a queue_reorder from the remote holder whose from and to are the same in-range
  position \<open>i\<close> leaves the session exactly as it was: the queue, currentIndex, position,
  isPlaying and every other field.
\<close>

theorem reorder_to_same_position_is_identity:
  assumes "isRemoteHolder ls sender" and "Action msg = ''queue_reorder''"
    and "asReorder (Payload msg) = Some (i, i)"
    and "0 \<le> i" and "i < int (length (queue ls))"
  shows "fst (snd (HandleMessage tok h ls sender msg)) = ls"
proof -
  have same: "take (nat i) (spliceOut i (queue ls)) @ queue ls ! nat i
                # drop (nat i) (spliceOut i (queue ls)) = queue ls"
    using assms(4,5) by (rule reinsert_same)
  have "fst (snd (HandleMessage tok h ls sender msg))
        = fst (handleQueueReorder ls sender (Payload msg))"
    using assms(2) by (simp add: HandleMessage_def)
  also have "\<dots> = ls"
    unfolding handleQueueReorder_holder [OF assms(1,3,4,5,4,5)] same by simp
  finally show ?thesis .
qed

theorem reorder_to_same_position_is_identity_witness:
  "isRemoteHolder live3_at2 hostP
   \<and> Action (command ''queue_reorder'' (rawFromTo 1 1)) = ''queue_reorder''
   \<and> asReorder (Payload (command ''queue_reorder'' (rawFromTo 1 1))) = Some (1, 1)
   \<and> (0::int) \<le> 1 \<and> 1 < int (length (queue live3_at2))
   \<and> fst (snd (HandleMessage tok0 hub0 live3_at2 hostP (command ''queue_reorder'' (rawFromTo 1 1))))
       = live3_at2"
  using reorder_to_same_position_is_identity
          [of live3_at2 hostP "command ''queue_reorder'' (rawFromTo 1 1)" 1 tok0 hub0]
  by (simp add: live3_at2_eq live3_eq session3_eq isRemoteHolder_def hostP_def command_def
      rawFromTo_def rawEmpty_def)

subsection \<open>Leaving and the transfer of the remote\<close>

lemma oldestOf_least:
  assumes "acc \<noteq> None \<or> ps \<noteq> []"
  shows "\<exists>r. oldestOf acc ps = Some r
             \<and> r \<in> set_option acc \<union> snd ` set ps
             \<and> (\<forall>q \<in> set_option acc \<union> snd ` set ps. JoinedAt r \<le> JoinedAt q)"
  using assms
proof (induction ps arbitrary: acc)
  case Nil
  then show ?case by auto
next
  case (Cons kp rest)
  obtain k p where kp: "kp = (k, p)" by (cases kp)
  let ?acc' = "if acc = None \<or> JoinedAt p < JoinedAt (the acc) then Some p else acc"
  have "?acc' \<noteq> None \<or> rest \<noteq> []" by auto
  from Cons.IH [OF this] obtain r where r: "oldestOf ?acc' rest = Some r"
      "r \<in> set_option ?acc' \<union> snd ` set rest"
      "\<forall>q \<in> set_option ?acc' \<union> snd ` set rest. JoinedAt r \<le> JoinedAt q"
    by blast
  have sub: "set_option ?acc' \<subseteq> set_option acc \<union> {p}" by auto
  have low: "\<forall>q \<in> set_option acc \<union> {p}. \<exists>a \<in> set_option ?acc'. JoinedAt a \<le> JoinedAt q"
    by (cases acc) auto
  have "oldestOf acc (kp # rest) = Some r" using r(1) by (simp add: kp)
  moreover have "r \<in> set_option acc \<union> snd ` set (kp # rest)"
    using r(2) sub by (auto simp: kp)
  moreover have "\<forall>q \<in> set_option acc \<union> snd ` set (kp # rest). JoinedAt r \<le> JoinedAt q"
  proof
    fix q assume "q \<in> set_option acc \<union> snd ` set (kp # rest)"
    then consider "q \<in> set_option acc \<union> {p}" | "q \<in> snd ` set rest" by (auto simp: kp)
    then show "JoinedAt r \<le> JoinedAt q"
    proof cases
      case 1
      with low obtain a where "a \<in> set_option ?acc'" "JoinedAt a \<le> JoinedAt q" by blast
      moreover from this(1) r(3) have "JoinedAt r \<le> JoinedAt a" by blast
      ultimately show ?thesis by linarith
    next
      case 2
      with r(3) show ?thesis by blast
    qed
  qed
  ultimately show ?case by blast
qed

lemma findLongestConnected_least:
  assumes "participants ls \<noteq> []"
  shows "\<exists>r \<in> snd ` set (participants ls).
           findLongestConnected ls = ID r
           \<and> (\<forall>q \<in> snd ` set (participants ls). JoinedAt r \<le> JoinedAt q)"
proof -
  from oldestOf_least [of None "participants ls"] assms
  obtain r where "oldestOf None (participants ls) = Some r" "r \<in> snd ` set (participants ls)"
      "\<forall>q \<in> snd ` set (participants ls). JoinedAt r \<le> JoinedAt q"
    by auto
  then show ?thesis by (auto simp: findLongestConnected_def)
qed

lemma findLongestConnected_none:
  "participants ls = [] \<Longrightarrow> findLongestConnected ls = ''''"
  by (simp add: findLongestConnected_def)

lemma Leave_state:
  assumes "map_of (participants ls) pid = Some p"
  shows "fst (Leave ls pid)
         = ls\<lparr>participants := AList.delete pid (participants ls),
               remoteHolder := (if remoteHolder ls = pid
                  then findLongestConnected (ls\<lparr>participants := AList.delete pid (participants ls)\<rparr>)
                  else remoteHolder ls),
               graceTimer := (AList.delete pid (participants ls) = [] \<or> graceTimer ls)\<rparr>"
  using assms by (simp add: Leave_def Let_def)

lemma Leave_absent: "map_of (participants ls) pid = None \<Longrightarrow> Leave ls pid = (ls, [])"
  by (simp add: Leave_def)

lemma keys_delete: "fst ` set (AList.delete k al) = fst ` set al - {k}"
  by (auto simp: AList.delete_eq)

text \<open>
  C8: in a session with at least two participants, when the participant who holds the remote
  leaves, the new remote holder is the ID of a remaining participant whose JoinedAt is the
  earliest among the remaining participants (no remaining participant joined before it).
\<close>

theorem leaving_holder_passes_remote_to_longest_connected:
  assumes "remoteHolder ls = pid" and "map_of (participants ls) pid = Some p"
    and "2 \<le> card (fst ` set (participants ls))"
  shows "participants (fst (Leave ls pid)) = AList.delete pid (participants ls)
       \<and> (\<exists>r \<in> snd ` set (participants (fst (Leave ls pid))).
             remoteHolder (fst (Leave ls pid)) = ID r
             \<and> (\<forall>q \<in> snd ` set (participants (fst (Leave ls pid))). JoinedAt r \<le> JoinedAt q))"
proof -
  let ?rest = "AList.delete pid (participants ls)"
  have "card (fst ` set (participants ls) - {pid}) \<ge> 1"
    using assms(3) by (auto simp: card_Diff_singleton_if)
  then have "fst ` set (participants ls) - {pid} \<noteq> {}"
    by (metis card.empty not_one_le_zero)
  then have "fst ` set ?rest \<noteq> {}" unfolding keys_delete .
  then have ne: "participants (ls\<lparr>participants := ?rest\<rparr>) \<noteq> []" by auto
  from findLongestConnected_least [OF this]
  show ?thesis by (simp add: Leave_state [OF assms(2)] assms(1))
qed

theorem leaving_holder_passes_remote_to_longest_connected_witness:
  "remoteHolder live3 = ''p1'' \<and> map_of (participants live3) ''p1'' = Some hostP
   \<and> 2 \<le> card (fst ` set (participants live3))
   \<and> participants (fst (Leave live3 ''p1'')) = [(''p2'', guestP), (''p3'', guestQ)]
   \<and> remoteHolder (fst (Leave live3 ''p1'')) = ''p2''
   \<and> JoinedAt guestP = 20 \<and> JoinedAt guestQ = 30"
  using leaving_holder_passes_remote_to_longest_connected [of live3 "''p1''" hostP]
  by (simp add: live3_eq session3_eq Leave_def Let_def AList.delete_eq findLongestConnected_def
      guestP_def guestQ_def hostP_def)

subsection \<open>Ending a session\<close>






lemma WritePump_closed_writes_nothing:
  "connClosed t \<Longrightarrow> written (WritePump t) = written t"
  by (cases "sendCh t") (simp_all add: WritePump_def)

lemma perform_written:
  "perform T e = Some T' \<Longrightarrow> written (T' pid) = written (T pid)"
  by (cases e) (auto simp: trySend_def split: if_splits)

lemma perform_closed:
  "perform T e = Some T' \<Longrightarrow> connClosed (T pid) \<or> e = ConnClose pid \<Longrightarrow> connClosed (T' pid)"
  by (cases e) (auto simp: trySend_def split: if_splits)

lemma performAll_written:
  "performAll T es = Some T' \<Longrightarrow> written (T' pid) = written (T pid)"
proof (induction es arbitrary: T)
  case Nil
  then show ?case by simp
next
  case (Cons e es)
  then obtain T1 where "perform T e = Some T1" "performAll T1 es = Some T'"
    by (auto split: option.splits)
  then show ?case using Cons.IH [of T1] perform_written [of T e T1 pid] by simp
qed

lemma performAll_closed:
  "performAll T es = Some T' \<Longrightarrow> connClosed (T pid) \<or> ConnClose pid \<in> set es
     \<Longrightarrow> connClosed (T' pid)"
proof (induction es arbitrary: T)
  case Nil
  then show ?case by simp
next
  case (Cons e es)
  then obtain T1 where T1: "perform T e = Some T1" "performAll T1 es = Some T'"
    by (auto split: option.splits)
  have "connClosed (T1 pid) \<or> ConnClose pid \<in> set es"
    using Cons.prems(2) perform_closed [OF T1(1), of pid] by auto
  then show ?case using Cons.IH [OF T1(2)] by simp
qed

lemma handleEndSession_events:
  assumes "isRemoteHolder ls sender" and "Action msg = ''end_session''"
  shows "HandleMessage tok h ls sender msg
         = (removeSession h (sessionID ls), ls,
            concat (map (\<lambda>(k, p). [Send (ID p) endMsg, ConnClose (ID p)]) (participants ls)))"
  using assms by (simp add: HandleMessage_def handleEndSession_def)

text \<open>
  When \<^verbatim>\<open>handleEndSession\<close> has run to completion before the write pumps take their
  next message, every participant's connection is closed by then and no pump writes anything
  more: the \<open>session_ended\<close> message stays unwritten.
\<close>

lemma end_session_closes_before_the_pump_writes:
  assumes "isRemoteHolder ls sender" and "Action msg = ''end_session''"
    and "performAll T (snd (snd (HandleMessage tok h ls sender msg))) = Some T'"
    and "(k, p) \<in> set (participants ls)"
  shows "written (WritePump (T' (ID p))) = written (T (ID p))"
proof -
  have "ConnClose (ID p) \<in> set (snd (snd (HandleMessage tok h ls sender msg)))"
    unfolding handleEndSession_events [OF assms(1,2)] using assms(4) by force
  then have "connClosed (T' (ID p))" using performAll_closed [OF assms(3)] by simp
  then show ?thesis
    using performAll_written [OF assms(3)] by (simp add: WritePump_closed_writes_nothing)
qed





subsection \<open>Runs and invariants\<close>

lemma run_Nil: "run tok st [] = st"
  by (simp add: run_def)

lemma run_Cons: "run tok st (op # ops) = run tok (apply_op tok st op) ops"
  by (simp add: run_def)

text \<open>A property of sessions that every operation preserves holds after every run.\<close>

lemma run_preserves:
  assumes step: "\<And>h ls op. P ls \<Longrightarrow> Q op \<Longrightarrow> P (snd (apply_op tok (h, ls) op))"
    and "P ls" and "\<forall>op \<in> set ops. Q op"
  shows "P (snd (run tok (h, ls) ops))"
  using assms(2,3)
proof (induction ops arbitrary: h ls)
  case Nil
  then show ?case by (simp add: run_Nil)
next
  case (Cons op ops)
  obtain h' ls' where st: "apply_op tok (h, ls) op = (h', ls')"
    by (cases "apply_op tok (h, ls) op")
  have "P ls'" using step [of ls op h] Cons.prems by (simp add: st)
  then have "P (snd (run tok (h', ls') ops))" using Cons.prems by (intro Cons.IH) simp_all
  then show ?case by (simp add: run_Cons st)
qed

text \<open>The shapes of the session after a queue command.\<close>

lemma handleQueueAdd_cases:
  "fst (handleQueueAdd tok h ls sender payload) = ls
   \<or> (\<exists>track. fst (handleQueueAdd tok h ls sender payload)
                = ls\<lparr>tracks := tracks ls @ [track],
                      queue := queue ls @ [int (length (tracks ls))]\<rparr>)"
  by (auto simp: handleQueueAdd_def Let_def split: option.splits)

lemma handleQueueRemove_cases:
  "fst (handleQueueRemove ls sender payload) = ls
   \<or> (\<exists>p. 0 \<le> p \<and> p < int (length (queue ls)) \<and> p \<noteq> currentIndex ls
          \<and> fst (handleQueueRemove ls sender payload)
              = ls\<lparr>queue := spliceOut p (queue ls),
                    currentIndex := (if p < currentIndex ls then currentIndex ls - 1
                                     else currentIndex ls)\<rparr>)"
proof (cases "isRemoteHolder ls sender")
  case False
  then show ?thesis by (simp add: handleQueueRemove_def)
next
  case holder: True
  show ?thesis
  proof (cases "asQueuePosition payload")
    case None
    then show ?thesis using holder by (simp add: handleQueueRemove_def)
  next
    case (Some p)
    show ?thesis
    proof (cases "0 \<le> p \<and> p < int (length (queue ls)) \<and> p \<noteq> currentIndex ls")
      case True
      then have p: "0 \<le> p" "p < int (length (queue ls))" "p \<noteq> currentIndex ls" by simp_all
      from handleQueueRemove_holder [OF holder Some p] p show ?thesis by blast
    next
      case False
      then have "fst (handleQueueRemove ls sender payload) = ls"
        using holder Some by (auto simp: handleQueueRemove_def)
      then show ?thesis ..
    qed
  qed
qed

lemma handleQueueReorder_cases:
  "fst (handleQueueReorder ls sender payload) = ls
   \<or> (\<exists>f t. 0 \<le> f \<and> f < int (length (queue ls)) \<and> 0 \<le> t \<and> t < int (length (queue ls))
          \<and> fst (handleQueueReorder ls sender payload)
              = ls\<lparr>queue := take (nat t) (spliceOut f (queue ls)) @ queue ls ! nat f
                              # drop (nat t) (spliceOut f (queue ls)),
                    currentIndex := (if f = currentIndex ls then t
                       else if f < currentIndex ls \<and> t \<ge> currentIndex ls then currentIndex ls - 1
                       else if f > currentIndex ls \<and> t \<le> currentIndex ls then currentIndex ls + 1
                       else currentIndex ls)\<rparr>)"
proof (cases "isRemoteHolder ls sender")
  case False
  then show ?thesis by (simp add: handleQueueReorder_def)
next
  case holder: True
  show ?thesis
  proof (cases "asReorder payload")
    case None
    then show ?thesis using holder by (simp add: handleQueueReorder_def)
  next
    case (Some ft)
    obtain f t where ft: "ft = (f, t)" by (cases ft)
    show ?thesis
    proof (cases "0 \<le> f \<and> f < int (length (queue ls)) \<and> 0 \<le> t \<and> t < int (length (queue ls))")
      case True
      then have r: "0 \<le> f" "f < int (length (queue ls))" "0 \<le> t" "t < int (length (queue ls))"
        by simp_all
      from handleQueueReorder_holder [OF holder Some [unfolded ft] r] r show ?thesis by blast
    next
      case False
      then have "fst (handleQueueReorder ls sender payload) = ls"
        using holder Some by (auto simp: handleQueueReorder_def ft)
      then show ?thesis ..
    qed
  qed
qed

subsection \<open>The queue holds valid, distinct track indices\<close>

lemma set_spliceOut_subset: "set (spliceOut p q) \<subseteq> set q"
  by (auto simp: spliceOut_def dest: in_set_takeD in_set_dropD)

lemma distinct_spliceOut: "distinct q \<Longrightarrow> distinct (spliceOut p q)"
  by (auto simp: spliceOut_def dest: set_take_disj_set_drop_if_distinct [of q "nat p" "nat (p + 1)"])

lemma removed_not_in_spliceOut:
  assumes "distinct q" and "0 \<le> f" and "f < int (length q)"
  shows "q ! nat f \<notin> set (spliceOut f q)"
proof -
  have n: "nat f < length q" using assms by linarith
  have "distinct (take (nat f) q @ q ! nat f # drop (Suc (nat f)) q)"
    using assms(1) id_take_nth_drop [OF n] by simp
  then show ?thesis using assms(2) by (simp add: spliceOut_nat)
qed

lemma set_reinsert: "set (take t r @ x # drop t r) = insert x (set r)"
proof -
  have "set (take t r) \<union> set (drop t r) = set r"
    by (metis append_take_drop_id set_append)
  then show ?thesis by auto
qed

lemma distinct_reinsert:
  assumes "distinct r" and "x \<notin> set r"
  shows "distinct (take t r @ x # drop t r)"
proof -
  have "distinct (take t r) \<and> distinct (drop t r) \<and> set (take t r) \<inter> set (drop t r) = {}"
    using assms(1) by (metis append_take_drop_id distinct_append)
  then show ?thesis using assms(2) by (auto dest: in_set_takeD in_set_dropD)
qed

lemma queue_inv_add:
  assumes "queue_inv ls"
  shows "queue_inv (ls\<lparr>tracks := tracks ls @ [track],
                        queue := queue ls @ [int (length (tracks ls))]\<rparr>)"
  using assms by (fastforce simp: queue_inv_def)

lemma queue_inv_remove:
  assumes "queue_inv ls"
  shows "queue_inv (ls\<lparr>queue := spliceOut p (queue ls), currentIndex := c\<rparr>)"
  using assms set_spliceOut_subset [of p "queue ls"]
  by (auto simp: queue_inv_def distinct_spliceOut)

lemma queue_inv_reorder:
  assumes "queue_inv ls" and "0 \<le> f" and "f < int (length (queue ls))"
  shows "queue_inv (ls\<lparr>queue := take t (spliceOut f (queue ls)) @ queue ls ! nat f
                                  # drop t (spliceOut f (queue ls)),
                        currentIndex := c\<rparr>)"
proof -
  let ?q = "queue ls" and ?r = "spliceOut f (queue ls)"
  have d: "distinct ?q" and v: "\<forall>idx \<in> set ?q. 0 \<le> idx \<and> idx < int (length (tracks ls))"
    using assms(1) by (simp_all add: queue_inv_def)
  have x: "?q ! nat f \<in> set ?q" using assms(2,3) by (intro nth_mem) linarith
  have "distinct (take t ?r @ ?q ! nat f # drop t ?r)"
    using distinct_spliceOut [OF d] removed_not_in_spliceOut [OF d assms(2,3)]
    by (rule distinct_reinsert)
  moreover have "set (take t ?r @ ?q ! nat f # drop t ?r) \<subseteq> set ?q"
    unfolding set_reinsert using x set_spliceOut_subset [of f ?q] by auto
  ultimately show ?thesis using v by (auto simp: queue_inv_def simp del: set_append)
qed

lemma queue_inv_cong:
  "queue ls' = queue ls \<Longrightarrow> tracks ls' = tracks ls \<Longrightarrow> queue_inv ls' = queue_inv ls"
  by (simp add: queue_inv_def)

lemma queue_inv_HandleMessage:
  assumes "queue_inv ls"
  shows "queue_inv (fst (snd (HandleMessage tok h ls sender msg)))"
proof -
  have add: "queue_inv (fst (handleQueueAdd tok h ls sender (Payload msg)))"
    using handleQueueAdd_cases [of tok h ls sender "Payload msg"] assms
    by (auto simp: queue_inv_add)
  have rem: "queue_inv (fst (handleQueueRemove ls sender (Payload msg)))"
    using handleQueueRemove_cases [of ls sender "Payload msg"] assms
    by (auto simp: queue_inv_remove)
  have reo: "queue_inv (fst (handleQueueReorder ls sender (Payload msg)))"
    using handleQueueReorder_cases [of ls sender "Payload msg"] assms
    by (auto simp: queue_inv_reorder)
  have frame: "queue_inv (fst (handlePlay ls sender))" "queue_inv (fst (handlePause ls sender))"
    "queue_inv (fst (handleSeek ls sender (Payload msg)))"
    "queue_inv (fst (handleSkipNext ls sender))" "queue_inv (fst (handleSkipPrev ls sender))"
    "queue_inv (fst (handleSync ls sender (Payload msg)))"
    "queue_inv (fst (handlePassRemote ls sender (Payload msg)))"
    "queue_inv (fst (handleRequestRemote ls sender))"
    "queue_inv (fst (handleAcceptRemoteRequest ls sender (Payload msg)))"
    using assms
    by (auto simp: handlePlay_def handlePause_def handleSeek_def handleSkipNext_def
        handleSkipPrev_def handleSync_def handlePassRemote_def handleRequestRemote_def
        handleAcceptRemoteRequest_def Let_def queue_inv_def split: option.splits)
  show ?thesis
    using add rem reo frame assms by (simp add: HandleMessage_def split_def Let_def)
qed

lemma queue_inv_apply_op:
  assumes "queue_inv ls"
  shows "queue_inv (snd (apply_op tok (h, ls) op))"
proof (cases op)
  case (OpJoin pid name isHost now)
  then show ?thesis using assms by (simp add: Join_def Let_def queue_inv_def)
next
  case (OpLeave pid)
  then show ?thesis
    using assms by (simp add: Leave_def Let_def queue_inv_def split: option.splits)
next
  case (OpMessage sender msg)
  then show ?thesis
    using queue_inv_HandleMessage [OF assms, of tok h sender msg]
    by (simp add: split_def Let_def)
next
  case OpGraceExpired
  then show ?thesis using assms by simp
qed

lemma queue_inv_new: "queue_inv (newLiveSession tok session)"
  by (auto simp: queue_inv_def newLiveSession_def distinct_map inj_on_def)

text \<open>
  C7: in every state that a session reaches from its creation by joins, leaves, commands
  (queue_add, queue_remove, queue_reorder and all others) and timer expiries, every entry of
  the queue is a valid index into tracks (in \<open>[0, len(tracks))\<close>) and no index occurs twice.
\<close>

theorem queue_entries_valid_distinct:
  "(\<forall>idx \<in> set (queue (snd (run tok (h, newLiveSession tok session) ops))).
       0 \<le> idx \<and> idx < int (length (tracks (snd (run tok (h, newLiveSession tok session) ops)))))
   \<and> distinct (queue (snd (run tok (h, newLiveSession tok session) ops)))"
proof -
  have "queue_inv (snd (run tok (h, newLiveSession tok session) ops))"
    by (rule run_preserves [where Q = "\<lambda>_. True"]) (simp_all add: queue_inv_apply_op queue_inv_new)
  then show ?thesis by (simp add: queue_inv_def)
qed

theorem queue_entries_valid_distinct_witness:
  "queue (snd (run tok0 (hub0, newLiveSession tok0 desc3) (joins @ edits))) = [1, 3, 0]
   \<and> length (tracks (snd (run tok0 (hub0, newLiveSession tok0 desc3) (joins @ edits)))) = 4
   \<and> distinct (queue (snd (run tok0 (hub0, newLiveSession tok0 desc3) (joins @ edits))))"
  using queue_entries_valid_distinct [of tok0 hub0 desc3 "joins @ edits"]
  by (simp add: run_def joins_def edits_def session3_eq [unfolded session3_def] Join_def Let_def
      HandleMessage_def handleQueueAdd_def handleQueueReorder_def handleQueueRemove_def
      isRemoteHolder_def hostP_def command_def rawEmpty_def rawFromTo_def rawQueuePosition_def
      hub0_def spliceOut_def trackOf_def)

subsection \<open>The current index stays inside the queue\<close>

lemma index_inv_add:
  "index_inv ls \<Longrightarrow> index_inv (ls\<lparr>tracks := ts, queue := queue ls @ [x]\<rparr>)"
  by (auto simp: index_inv_def)

lemma index_inv_remove:
  assumes "index_inv ls" and p: "0 \<le> p" "p < int (length (queue ls))" "p \<noteq> currentIndex ls"
  shows "index_inv (ls\<lparr>queue := spliceOut p (queue ls),
                        currentIndex := (if p < currentIndex ls then currentIndex ls - 1
                                         else currentIndex ls)\<rparr>)"
proof -
  have len: "int (length (spliceOut p (queue ls))) = int (length (queue ls)) - 1"
    using length_spliceOut [OF p(1,2)] p by linarith
  have "queue ls \<noteq> []" using p by auto
  then have "0 \<le> currentIndex ls \<and> currentIndex ls < int (length (queue ls))"
    using assms(1) by (simp add: index_inv_def)
  then show ?thesis using p len by (auto simp: index_inv_def)
qed

lemma index_inv_reorder:
  assumes "index_inv ls" and f: "0 \<le> f" "f < int (length (queue ls))"
    and t: "0 \<le> t" "t < int (length (queue ls))"
  shows "index_inv
           (ls\<lparr>queue := take (nat t) (spliceOut f (queue ls)) @ queue ls ! nat f
                           # drop (nat t) (spliceOut f (queue ls)),
                currentIndex := (if f = currentIndex ls then t
                   else if f < currentIndex ls \<and> t \<ge> currentIndex ls then currentIndex ls - 1
                   else if f > currentIndex ls \<and> t \<le> currentIndex ls then currentIndex ls + 1
                   else currentIndex ls)\<rparr>)"
proof -
  let ?q' = "take (nat t) (spliceOut f (queue ls)) @ queue ls ! nat f
               # drop (nat t) (spliceOut f (queue ls))"
  have len: "length ?q' = length (queue ls)" using f by (rule length_move)
  have "queue ls \<noteq> []" using f by auto
  then have "0 \<le> currentIndex ls \<and> currentIndex ls < int (length (queue ls))"
    using assms(1) by (simp add: index_inv_def)
  then show ?thesis
    unfolding index_inv_def using f t len by (auto simp del: length_append)
qed

lemma index_inv_HandleMessage:
  assumes "index_inv ls"
  shows "index_inv (fst (snd (HandleMessage tok h ls sender msg)))"
proof -
  have add: "index_inv (fst (handleQueueAdd tok h ls sender (Payload msg)))"
    using handleQueueAdd_cases [of tok h ls sender "Payload msg"] assms
    by (auto simp: index_inv_add)
  have rem: "index_inv (fst (handleQueueRemove ls sender (Payload msg)))"
    using handleQueueRemove_cases [of ls sender "Payload msg"] assms
    by (auto simp: index_inv_remove)
  have reo: "index_inv (fst (handleQueueReorder ls sender (Payload msg)))"
    using handleQueueReorder_cases [of ls sender "Payload msg"] assms
    by (auto simp: index_inv_reorder)
  have frame: "index_inv (fst (handlePlay ls sender))" "index_inv (fst (handlePause ls sender))"
    "index_inv (fst (handleSeek ls sender (Payload msg)))"
    "index_inv (fst (handleSkipNext ls sender))" "index_inv (fst (handleSkipPrev ls sender))"
    "index_inv (fst (handleSync ls sender (Payload msg)))"
    "index_inv (fst (handlePassRemote ls sender (Payload msg)))"
    "index_inv (fst (handleRequestRemote ls sender))"
    "index_inv (fst (handleAcceptRemoteRequest ls sender (Payload msg)))"
    using assms
    by (auto simp: handlePlay_def handlePause_def handleSeek_def handleSkipNext_def
        handleSkipPrev_def handleSync_def handlePassRemote_def handleRequestRemote_def
        handleAcceptRemoteRequest_def Let_def index_inv_def split: option.splits)
  show ?thesis
    using add rem reo frame assms by (simp add: HandleMessage_def split_def Let_def)
qed

lemma index_inv_apply_op:
  assumes "index_inv ls"
  shows "index_inv (snd (apply_op tok (h, ls) op))"
proof (cases op)
  case (OpJoin pid name isHost now)
  then show ?thesis using assms by (simp add: Join_def Let_def index_inv_def)
next
  case (OpLeave pid)
  then show ?thesis
    using assms by (simp add: Leave_def Let_def index_inv_def split: option.splits)
next
  case (OpMessage sender msg)
  then show ?thesis
    using index_inv_HandleMessage [OF assms, of tok h sender msg]
    by (simp add: split_def Let_def)
next
  case OpGraceExpired
  then show ?thesis using assms by simp
qed

lemma index_inv_new: "index_inv (newLiveSession tok session)"
  by (simp add: index_inv_def newLiveSession_def)

text \<open>
  C2, as the spec states it: after every command, an empty queue comes with
  \<open>currentIndex = 0\<close> and \<open>isPlaying = false\<close>, and play from the remote holder on an empty
  queue is a no-op. In the sample session without tracks, which the host has joined, the host
  sends play: the queue is still empty and \<open>isPlaying\<close> is true.
\<close>

theorem play_on_empty_queue_sets_playing:
  "isRemoteHolder live0 hostP \<and> queue live0 = [] \<and> \<not> isPlaying live0
   \<and> queue (fst (snd (HandleMessage tok0 hub0 live0 hostP (command ''play'' rawEmpty)))) = []
   \<and> isPlaying (fst (snd (HandleMessage tok0 hub0 live0 hostP (command ''play'' rawEmpty))))"
  by (simp add: live0_eq isRemoteHolder_def hostP_def command_def HandleMessage_def
      handlePlay_def Let_def)

text \<open>
  C2, amended: in every state that a session reaches from its creation by joins, leaves,
  commands and timer expiries, an empty queue comes with \<open>currentIndex = 0\<close>. \<open>isPlaying\<close>
  does not depend on the queue: a play command from the remote holder sets it to true
  and broadcasts the state, whether the queue is empty or not.
\<close>

theorem empty_queue_index_zero_and_play_sets_playing:
  "(queue (snd (run tok (h, newLiveSession tok session) ops)) = []
      \<longrightarrow> currentIndex (snd (run tok (h, newLiveSession tok session) ops)) = 0)
   \<and> (isRemoteHolder ls sender \<and> Action msg = ''play''
      \<longrightarrow> HandleMessage tok h' ls sender msg
          = (h', ls\<lparr>isPlaying := True\<rparr>, broadcastState (ls\<lparr>isPlaying := True\<rparr>) ''play''))"
proof -
  have "index_inv (snd (run tok (h, newLiveSession tok session) ops))"
    by (rule run_preserves [where Q = "\<lambda>_. True"]) (simp_all add: index_inv_apply_op index_inv_new)
  then show ?thesis by (auto simp: index_inv_def HandleMessage_def handlePlay_def Let_def)
qed

theorem empty_queue_index_zero_and_play_sets_playing_witness:
  "queue (snd (run tok0 (hub0, newLiveSession tok0 desc0) [OpJoin ''p1'' ''H'' True 10])) = []
   \<and> currentIndex (snd (run tok0 (hub0, newLiveSession tok0 desc0) [OpJoin ''p1'' ''H'' True 10])) = 0
   \<and> isRemoteHolder live0 hostP \<and> Action (command ''play'' rawEmpty) = ''play''
   \<and> queue live0 = []
   \<and> isPlaying (fst (snd (HandleMessage tok0 hub0 live0 hostP (command ''play'' rawEmpty))))"
  using empty_queue_index_zero_and_play_sets_playing
          [of tok0 hub0 desc0 "[OpJoin ''p1'' ''H'' True 10]" live0 hostP
              "command ''play'' rawEmpty" hub0]
  by (simp add: live0_eq [unfolded live0_def session0_def] live0_eq isRemoteHolder_def hostP_def
      command_def)

subsection \<open>The remote holder is a participant\<close>

lemma set_update_subset: "set (AList.update k v al) \<subseteq> insert (k, v) (set al)"
  by (induction al) auto

lemma set_delete_subset: "set (AList.delete k al) \<subseteq> set al"
  by (auto simp: AList.delete_eq)

lemma Join_state:
  "fst (Join ls pid name isHost now)
   = ls\<lparr>graceTimer := False,
         participants := AList.update pid \<lparr>ID = pid, Name = name, IsHost = isHost, JoinedAt = now\<rparr>
                           (participants ls),
         remoteHolder := (if remoteHolder ls = '''' \<or> isHost then pid else remoteHolder ls)\<rparr>"
  by (simp add: Join_def Let_def)

lemma holder_inv_Join:
  assumes "holder_inv ls" and "pid \<noteq> ''''"
  shows "holder_inv (fst (Join ls pid name isHost now))"
proof -
  let ?p = "\<lparr>ID = pid, Name = name, IsHost = isHost, JoinedAt = now\<rparr>"
  let ?ps = "AList.update pid ?p (participants ls)"
  let ?rh = "if remoteHolder ls = '''' \<or> isHost then pid else remoteHolder ls"
  have keys: "fst ` set ?ps = {pid} \<union> fst ` set (participants ls)" by (rule dom_update)
  then have ne: "?ps \<noteq> []" by auto
  have ids: "\<forall>(k, p) \<in> set ?ps. ID p = k"
    using assms(1) set_update_subset [of pid ?p "participants ls"]
    by (auto simp: holder_inv_def)
  have noempty: "'''' \<notin> fst ` set ?ps" using assms by (simp add: keys holder_inv_def)
  have rh: "?rh \<in> fst ` set ?ps"
  proof (cases "remoteHolder ls = '''' \<or> isHost")
    case True
    then show ?thesis unfolding keys by simp
  next
    case False
    then have "participants ls \<noteq> []" using assms(1) by (auto simp: holder_inv_def)
    then have "remoteHolder ls \<in> fst ` set (participants ls)"
      using assms(1) by (simp add: holder_inv_def)
    then show ?thesis unfolding keys using False by simp
  qed
  show ?thesis
    unfolding Join_state holder_inv_def using ids noempty rh ne by simp
qed

lemma holder_inv_Leave:
  assumes "holder_inv ls"
  shows "holder_inv (fst (Leave ls pid))"
proof (cases "map_of (participants ls) pid")
  case None
  then show ?thesis using assms by (simp add: Leave_absent)
next
  case (Some p)
  let ?ps = "AList.delete pid (participants ls)"
  let ?rh = "if remoteHolder ls = pid then findLongestConnected (ls\<lparr>participants := ?ps\<rparr>)
             else remoteHolder ls"
  have sub: "set ?ps \<subseteq> set (participants ls)" by (rule set_delete_subset)
  have keys: "fst ` set ?ps = fst ` set (participants ls) - {pid}" by (rule keys_delete)
  have ids: "\<forall>(k, p) \<in> set ?ps. ID p = k"
    using assms sub by (auto simp: holder_inv_def)
  have noempty: "'''' \<notin> fst ` set ?ps" using assms by (simp add: keys holder_inv_def)
  have "participants ls \<noteq> []" using Some by auto
  then have old: "remoteHolder ls \<in> fst ` set (participants ls)"
    using assms by (simp add: holder_inv_def)
  have rh: "if ?ps = [] then ?rh = '''' else ?rh \<in> fst ` set ?ps"
  proof (cases "remoteHolder ls = pid")
    case True
    show ?thesis
    proof (cases "?ps = []")
      case True
      then show ?thesis using \<open>remoteHolder ls = pid\<close> by (simp add: findLongestConnected_none)
    next
      case False
      then have "participants (ls\<lparr>participants := ?ps\<rparr>) \<noteq> []" by simp
      from findLongestConnected_least [OF this]
      obtain k r where "(k, r) \<in> set ?ps"
          "findLongestConnected (ls\<lparr>participants := ?ps\<rparr>) = ID r"
        by auto
      moreover from this(1) ids have "ID r = k" by auto
      ultimately have "findLongestConnected (ls\<lparr>participants := ?ps\<rparr>) \<in> fst ` set ?ps"
        by force
      then show ?thesis using False \<open>remoteHolder ls = pid\<close> by simp
    qed
  next
    case False
    then have "remoteHolder ls \<in> fst ` set ?ps" using old by (simp add: keys)
    then show ?thesis using False by auto
  qed
  show ?thesis
    unfolding Leave_state [OF Some] holder_inv_def using ids noempty rh by simp
qed

lemma HandleMessage_membership:
  "participants (fst (snd (HandleMessage tok h ls sender msg))) = participants ls
   \<and> (remoteHolder (fst (snd (HandleMessage tok h ls sender msg))) = remoteHolder ls
      \<or> remoteHolder (fst (snd (HandleMessage tok h ls sender msg)))
          \<in> fst ` set (participants ls))"
proof -
  have key: "\<And>k v. map_of (participants ls) k = Some v \<Longrightarrow> k \<in> fst ` set (participants ls)"
    by (force dest: map_of_SomeD)
  have pass: "participants (fst (handlePassRemote ls sender (Payload msg))) = participants ls
      \<and> (remoteHolder (fst (handlePassRemote ls sender (Payload msg))) = remoteHolder ls
         \<or> remoteHolder (fst (handlePassRemote ls sender (Payload msg)))
             \<in> fst ` set (participants ls))"
    using key by (auto simp: handlePassRemote_def Let_def split: option.splits)
  have accept:
    "participants (fst (handleAcceptRemoteRequest ls sender (Payload msg))) = participants ls
      \<and> (remoteHolder (fst (handleAcceptRemoteRequest ls sender (Payload msg))) = remoteHolder ls
         \<or> remoteHolder (fst (handleAcceptRemoteRequest ls sender (Payload msg)))
             \<in> fst ` set (participants ls))"
    using key by (auto simp: handleAcceptRemoteRequest_def Let_def split: option.splits)
  have queue:
    "participants (fst (handleQueueAdd tok h ls sender (Payload msg))) = participants ls
      \<and> remoteHolder (fst (handleQueueAdd tok h ls sender (Payload msg))) = remoteHolder ls"
    "participants (fst (handleQueueRemove ls sender (Payload msg))) = participants ls
      \<and> remoteHolder (fst (handleQueueRemove ls sender (Payload msg))) = remoteHolder ls"
    "participants (fst (handleQueueReorder ls sender (Payload msg))) = participants ls
      \<and> remoteHolder (fst (handleQueueReorder ls sender (Payload msg))) = remoteHolder ls"
    using handleQueueAdd_cases [of tok h ls sender "Payload msg"]
      handleQueueRemove_cases [of ls sender "Payload msg"]
      handleQueueReorder_cases [of ls sender "Payload msg"]
    by auto
  have frame:
    "participants (fst (handlePlay ls sender)) = participants ls
      \<and> remoteHolder (fst (handlePlay ls sender)) = remoteHolder ls"
    "participants (fst (handlePause ls sender)) = participants ls
      \<and> remoteHolder (fst (handlePause ls sender)) = remoteHolder ls"
    "participants (fst (handleSeek ls sender (Payload msg))) = participants ls
      \<and> remoteHolder (fst (handleSeek ls sender (Payload msg))) = remoteHolder ls"
    "participants (fst (handleSkipNext ls sender)) = participants ls
      \<and> remoteHolder (fst (handleSkipNext ls sender)) = remoteHolder ls"
    "participants (fst (handleSkipPrev ls sender)) = participants ls
      \<and> remoteHolder (fst (handleSkipPrev ls sender)) = remoteHolder ls"
    "participants (fst (handleSync ls sender (Payload msg))) = participants ls
      \<and> remoteHolder (fst (handleSync ls sender (Payload msg))) = remoteHolder ls"
    "participants (fst (handleRequestRemote ls sender)) = participants ls
      \<and> remoteHolder (fst (handleRequestRemote ls sender)) = remoteHolder ls"
    by (auto simp: handlePlay_def handlePause_def handleSeek_def handleSkipNext_def
        handleSkipPrev_def handleSync_def handleRequestRemote_def Let_def split: option.splits)
  show ?thesis
    using pass accept queue frame by (simp add: HandleMessage_def split_def Let_def)
qed

lemma holder_inv_HandleMessage:
  assumes "holder_inv ls"
  shows "holder_inv (fst (snd (HandleMessage tok h ls sender msg)))"
proof -
  let ?ls' = "fst (snd (HandleMessage tok h ls sender msg))"
  from HandleMessage_membership [of tok h ls sender msg]
  have ps: "participants ?ls' = participants ls"
    and rh: "remoteHolder ?ls' = remoteHolder ls
             \<or> remoteHolder ?ls' \<in> fst ` set (participants ls)"
    by blast+
  have "if participants ls = [] then remoteHolder ?ls' = ''''
        else remoteHolder ?ls' \<in> fst ` set (participants ls)"
  proof (cases "participants ls = []")
    case True
    then have "remoteHolder ?ls' = remoteHolder ls" using rh by simp
    then show ?thesis using True assms by (simp add: holder_inv_def)
  next
    case False
    then have "remoteHolder ls \<in> fst ` set (participants ls)"
      using assms by (simp add: holder_inv_def)
    then have "remoteHolder ?ls' \<in> fst ` set (participants ls)" using rh by metis
    then show ?thesis using False by simp
  qed
  then show ?thesis
    unfolding holder_inv_def ps using assms by (simp add: holder_inv_def)
qed

lemma holder_inv_apply_op:
  assumes "holder_inv ls" and "\<forall>pid name isHost now. op = OpJoin pid name isHost now \<longrightarrow> pid \<noteq> ''''"
  shows "holder_inv (snd (apply_op tok (h, ls) op))"
proof (cases op)
  case (OpJoin pid name isHost now)
  then show ?thesis using assms by (simp add: holder_inv_Join)
next
  case (OpLeave pid)
  then show ?thesis using assms by (simp add: holder_inv_Leave)
next
  case (OpMessage sender msg)
  then show ?thesis
    using holder_inv_HandleMessage [OF assms(1), of tok h sender msg]
    by (simp add: split_def Let_def)
next
  case OpGraceExpired
  then show ?thesis using assms by simp
qed

lemma holder_inv_new: "holder_inv (newLiveSession tok session)"
  by (simp add: holder_inv_def newLiveSession_def)

lemma fresh_ids_all:
  "fresh_ids ops \<Longrightarrow>
     \<forall>op \<in> set ops. \<forall>pid name isHost now. op = OpJoin pid name isHost now \<longrightarrow> pid \<noteq> ''''"
  by (induction ops rule: fresh_ids.induct) auto

text \<open>
  C4: after any sequence of joins, leaves and commands (and timer expiries) on a session, from
  its creation on: remoteHolder is the empty string exactly when there is no participant, and
  when there is one, remoteHolder is a key of the participant map and the ID of the
  participant stored there. (Participant IDs come from \<^verbatim>\<open>uuid.New().String()\<close> and are
  not empty.) Each operation keeps \<open>holder_inv\<close> from any session that has it, in whatever
  order the participant list is, so the order in which Go visits the map plays no role.
\<close>

theorem remote_holder_is_a_participant:
  assumes "fresh_ids ops"
  shows "(remoteHolder (snd (run tok (h, newLiveSession tok session) ops)) = ''''
            \<longleftrightarrow> participants (snd (run tok (h, newLiveSession tok session) ops)) = [])
       \<and> (participants (snd (run tok (h, newLiveSession tok session) ops)) \<noteq> [] \<longrightarrow>
            (\<exists>p. map_of (participants (snd (run tok (h, newLiveSession tok session) ops)))
                    (remoteHolder (snd (run tok (h, newLiveSession tok session) ops))) = Some p
                 \<and> ID p = remoteHolder (snd (run tok (h, newLiveSession tok session) ops))))"
proof -
  let ?ls = "snd (run tok (h, newLiveSession tok session) ops)"
  have inv: "holder_inv ?ls"
    by (rule run_preserves
          [where Q = "\<lambda>op. \<forall>pid name isHost now. op = OpJoin pid name isHost now \<longrightarrow> pid \<noteq> ''''"])
       (simp_all add: holder_inv_apply_op holder_inv_new fresh_ids_all [OF assms])
  show ?thesis
  proof (cases "participants ?ls = []")
    case True
    then show ?thesis using inv by (simp add: holder_inv_def)
  next
    case False
    then have mem: "remoteHolder ?ls \<in> fst ` set (participants ?ls)"
      and ne: "'''' \<notin> fst ` set (participants ?ls)"
      and ids: "\<forall>(k, p) \<in> set (participants ?ls). ID p = k"
      using inv by (simp_all add: holder_inv_def)
    from mem obtain p where p: "map_of (participants ?ls) (remoteHolder ?ls) = Some p"
      by (metis map_of_eq_None_iff not_Some_eq)
    then have "(remoteHolder ?ls, p) \<in> set (participants ?ls)" by (rule map_of_SomeD)
    with ids have "ID p = remoteHolder ?ls" by auto
    moreover have "remoteHolder ?ls \<noteq> ''''" using mem ne by metis
    ultimately show ?thesis using False p by simp
  qed
qed

theorem remote_holder_is_a_participant_witness:
  "fresh_ids (joins @ [OpLeave ''p1''])
   \<and> participants (snd (run tok0 (hub0, newLiveSession tok0 desc3) (joins @ [OpLeave ''p1''])))
       = [(''p2'', guestP), (''p3'', guestQ)]
   \<and> remoteHolder (snd (run tok0 (hub0, newLiveSession tok0 desc3) (joins @ [OpLeave ''p1'']))) = ''p2''
   \<and> map_of [(''p2'', guestP), (''p3'', guestQ)] ''p2'' = Some guestP \<and> ID guestP = ''p2''
   \<and> fresh_ids [OpJoin ''p1'' ''H'' True 10, OpLeave ''p1'']
   \<and> participants (snd (run tok0 (hub0, newLiveSession tok0 desc3)
                          [OpJoin ''p1'' ''H'' True 10, OpLeave ''p1''])) = []
   \<and> remoteHolder (snd (run tok0 (hub0, newLiveSession tok0 desc3)
                          [OpJoin ''p1'' ''H'' True 10, OpLeave ''p1''])) = ''''"
  using remote_holder_is_a_participant [of "joins @ [OpLeave ''p1'']" tok0 hub0 desc3]
    remote_holder_is_a_participant [of "[OpJoin ''p1'' ''H'' True 10, OpLeave ''p1'']" tok0 hub0 desc3]
  by (simp add: run_def joins_def session3_eq [unfolded session3_def] Join_def Leave_def Let_def
      AList.delete_eq findLongestConnected_def hostP_def guestP_def guestQ_def)

end
